theory Spec2Isabelle
  imports Main
begin

section \<open>Values of the host language\<close>

text \<open>
  The rule engine is written in TypeScript. A priority is a JavaScript number: an integer
  or \<open>NaN\<close> (\<open>parseInt\<close> yields nothing else). Integers are kept exact: the rounding
  of doubles beyond \<open>2^53\<close> is not modelled, and neither are fractions.
\<close>

datatype number = Number int | NaN

text \<open>
  \<open>truthy v\<close> is the value of a \<open>number | undefined\<close> when JavaScript takes it for
  true (\<open>if (v)\<close>, \<open>v || d\<close>): \<open>undefined\<close>, \<open>0\<close> and \<open>NaN\<close> are falsy.
\<close>

fun truthy :: "number option \<Rightarrow> int option" where
  "truthy None = None"
| "truthy (Some NaN) = None"
| "truthy (Some (Number n)) = (if n = 0 then None else Some n)"

text \<open>A thrown \<open>Error\<close>: its \<open>code\<close> property, when it has one, and its message.\<close>

datatype error = Error (code: "string option") (message: string)

section \<open>Condition nodes, facts and the engine\<close>

text \<open>
  Modelled from the spec: the class \<open>Condition\<close> (\<open>./condition\<close>) is not part of
  \<open>rule.ts\<close>. A node is a boolean node (\<open>all\<close> or \<open>any\<close> over an ordered list of
  children, optional priority) or a leaf (fact, comparison operator, expected value,
  optional priority). The mutable fields \<open>result\<close> and \<open>factResult\<close> are not
  constructor fields: every assignment to them is an event of the evaluation trace below.
\<close>

datatype operator = OpAll | OpAny

datatype 'v condition =
    Leaf (fact: string) (comparator: string) (expected: 'v) (priority: "number option")
  | Boolean (operator: operator) (children: "'v condition list") (priority: "number option")

text \<open>\<open>condition.fact\<close>: \<open>undefined\<close> on a boolean node.\<close>

fun fact_of :: "'v condition \<Rightarrow> string option" where
  "fact_of (Leaf f _ _ _) = Some f"
| "fact_of (Boolean _ _ _) = None"

fun isBooleanOperator :: "'v condition \<Rightarrow> bool" where
  "isBooleanOperator (Leaf _ _ _ _) = False"
| "isBooleanOperator (Boolean _ _ _) = True"

text \<open>
  Modelled from the spec: the class \<open>Engine\<close> (\<open>./engine\<close>) is not part of \<open>rule.ts\<close>.
  \<open>rule.ts\<close> reads three things of it: \<open>getFact(id)\<close>, whose result has a
  \<open>priority\<close>; the flag \<open>allowUndefinedFacts\<close>; and \<open>operators\<close>, which it only hands
  to \<open>condition.evaluate\<close>. Facts are registered under string ids, so \<open>getFact(undefined)\<close>
  finds none.
\<close>

record fact_entry =
  fact_priority :: "number option"

record engine =
  facts :: "string \<rightharpoonup> fact_entry"
  allowUndefinedFacts :: bool

definition getFact :: "engine \<Rightarrow> string option \<Rightarrow> fact_entry option" where
  "getFact e fid = (case fid of None \<Rightarrow> None | Some f \<Rightarrow> facts e f)"

section \<open>Priority tiers (\<open>prioritizeConditions\<close>)\<close>

text \<open>
  \<^verbatim>\<open>
  let priority = condition.priority;
  if (!priority) {
    let fact = this.engine ? this.engine.getFact(condition.fact) : null;
    priority = (fact && fact.priority) || 1;
  }
  \<close>
  The result is always a truthy number, hence a non-zero integer.
\<close>

definition condition_priority :: "engine option \<Rightarrow> 'v condition \<Rightarrow> int" where
  "condition_priority eng condition =
     (case truthy (priority condition) of
        Some p \<Rightarrow> p
      | None \<Rightarrow>
          (let fact = (case eng of Some e \<Rightarrow> getFact e (fact_of condition) | None \<Rightarrow> None)
           in case (case fact of Some f \<Rightarrow> truthy (fact_priority f) | None \<Rightarrow> None) of
                Some p \<Rightarrow> p
              | None \<Rightarrow> 1))"

text \<open>
  The accumulator \<open>sets\<close> of the \<open>reduce\<close> is an object keyed by the priority; it is
  modelled as an association list in insertion order.
  \<^verbatim>\<open>
  if (!sets[priority]) { sets[priority] = []; }
  sets[priority].push(condition);
  \<close>
\<close>

definition sets_push :: "int \<Rightarrow> 'a \<Rightarrow> (int \<times> 'a list) list \<Rightarrow> (int \<times> 'a list) list" where
  "sets_push p c sets =
     (let sets1 = (if map_of sets p = None then sets @ [(p, [])] else sets)
      in map (\<lambda>(k, v). if k = p then (k, v @ [c]) else (k, v)) sets1)"

definition sets_get :: "(int \<times> 'a list) list \<Rightarrow> int \<Rightarrow> 'a list" where
  "sets_get sets p = (case map_of sets p of Some v \<Rightarrow> v | None \<Rightarrow> [])"

text \<open>
  \<^verbatim>\<open>
  return Object.keys(factSets)
    .sort((a, b) => Number(a) > Number(b) ? -1 : 1)   // order highest priority -> lowest
    .map(priority => factSets[priority]);
  \<close>
  The keys are distinct numbers, on which the comparator is a strict descending order,
  so the order in which \<open>Object.keys\<close> lists them does not show in the result.
\<close>

definition sort_descending :: "int list \<Rightarrow> int list" where
  "sort_descending ks = rev (sort ks)"

definition prioritizeConditions :: "engine option \<Rightarrow> 'v condition list \<Rightarrow> 'v condition list list" where
  "prioritizeConditions eng conditions =
     (let factSets = foldl (\<lambda>sets condition. sets_push (condition_priority eng condition) condition sets)
                       [] conditions
      in map (sets_get factSets) (sort_descending (map fst factSets)))"

subsection \<open>The tiers are the groups by priority, highest first\<close>

lemma map_fst_sets_push:
  "map fst (sets_push p c sets) = (if p \<in> fst ` set sets then map fst sets else map fst sets @ [p])"
  by (auto simp: sets_push_def map_of_eq_None_iff split_beta)

lemma map_of_map_val: "map_of (map (\<lambda>(k, v). (k, f k v)) xs) q = map_option (f q) (map_of xs q)"
  by (induction xs) auto

lemma map_of_sets_push:
  "map_of (sets_push p c sets) q = (if q = p then Some (sets_get sets p @ [c]) else map_of sets q)"
proof -
  let ?f = "\<lambda>k v. if k = p then v @ [c] else v"
  have eq: "(\<lambda>(k, v). if k = p then (k, v @ [c]) else (k, v)) = (\<lambda>(k, v). (k, ?f k v))"
    by (auto simp: fun_eq_iff)
  show ?thesis
  proof (cases "map_of sets p")
    case None
    then show ?thesis
      unfolding sets_push_def Let_def eq map_of_map_val
      by (simp add: sets_get_def map_add_def option.map_ident split: option.splits)
  next
    case (Some v)
    then show ?thesis
      unfolding sets_push_def Let_def eq map_of_map_val
      by (simp add: sets_get_def option.map_ident)
  qed
qed

text \<open>What the \<open>reduce\<close> has built after the whole list: one key per priority that occurs,
  holding the conditions of that priority in input order.\<close>

lemma factSets_invariant:
  fixes prio :: "'a \<Rightarrow> int"
  defines "build \<equiv> foldl (\<lambda>sets c. sets_push (prio c) c sets) []"
  shows "distinct (map fst (build cs)) \<and> set (map fst (build cs)) = prio ` set cs
         \<and> (\<forall>p. sets_get (build cs) p = filter (\<lambda>c. prio c = p) cs)"
proof (induction cs rule: rev_induct)
  case Nil
  show ?case by (simp add: build_def sets_get_def)
next
  case (snoc c cs)
  have step: "build (cs @ [c]) = sets_push (prio c) c (build cs)"
    by (simp add: build_def)
  from snoc have d: "distinct (map fst (build cs))"
    and k: "set (map fst (build cs)) = prio ` set cs"
    and g: "\<And>p. sets_get (build cs) p = filter (\<lambda>c. prio c = p) cs"
    by simp_all
  have k': "fst ` set (build cs) = prio ` set cs" using k by simp
  have "distinct (map fst (build (cs @ [c])))"
    using d k' by (simp add: step map_fst_sets_push)
  moreover have "set (map fst (build (cs @ [c]))) = prio ` set (cs @ [c])"
    using k k' by (auto simp: step map_fst_sets_push)
  moreover have "sets_get (build (cs @ [c])) p = filter (\<lambda>c. prio c = p) (cs @ [c])" for p
    using g [of p] g [of "prio c"]
    by (simp add: step sets_get_def map_of_sets_push)
  ultimately show ?case by blast
qed

lemma sort_keys_unique:
  assumes "distinct ks" and "set ks = set xs"
  shows "sort ks = sort (remdups (xs :: int list))"
proof (rule sorted_distinct_set_unique)
  show "sorted (sort ks)" by simp
  show "distinct (sort ks)" using assms by simp
  show "sorted (sort (remdups xs))" by simp
  show "distinct (sort (remdups xs))" by simp
  show "set (sort ks) = set (sort (remdups xs))" using assms by simp
qed

text \<open>The priorities that occur among the siblings, each once, highest first.\<close>

definition tier_priorities :: "engine option \<Rightarrow> 'v condition list \<Rightarrow> int list" where
  "tier_priorities eng cs = rev (sort (remdups (map (condition_priority eng) cs)))"

lemma prioritizeConditions_eq:
  "prioritizeConditions eng cs =
     map (\<lambda>p. filter (\<lambda>c. condition_priority eng c = p) cs) (tier_priorities eng cs)"
proof -
  let ?prio = "condition_priority eng"
  let ?build = "foldl (\<lambda>sets c. sets_push (?prio c) c sets) [] cs"
  from factSets_invariant [of ?prio cs]
  have d: "distinct (map fst ?build)" and k: "set (map fst ?build) = set (map ?prio cs)"
    and g: "\<And>p. sets_get ?build p = filter (\<lambda>c. ?prio c = p) cs"
    by simp_all
  have "sort (map fst ?build) = sort (remdups (map ?prio cs))"
    using d k by (rule sort_keys_unique)
  then show ?thesis
    by (simp add: prioritizeConditions_def sort_descending_def tier_priorities_def g [abs_def])
qed

lemma tier_priorities_descending: "sorted_wrt (>) (tier_priorities eng cs)"
proof -
  have "sorted_wrt (<) (sort (remdups (map (condition_priority eng) cs)))"
    by (simp add: strict_sorted_iff)
  then show ?thesis by (simp add: tier_priorities_def sorted_wrt_rev)
qed

lemma set_tier_priorities: "set (tier_priorities eng cs) = condition_priority eng ` set cs"
  by (simp add: tier_priorities_def)

lemma tier_members:
  assumes "tier \<in> set (prioritizeConditions eng cs)" and "c \<in> set tier"
  shows "c \<in> set cs"
  using assms by (auto simp: prioritizeConditions_eq)

section \<open>Evaluation of a condition tree (\<open>evaluate\<close>)\<close>

subsection \<open>Promises, and what an evaluation leaves behind\<close>

text \<open>
  A promise is modelled by its final state. Work that has been started is never cancelled,
  so what an evaluation does is decided by the values alone, not by the timing of the
  fact store; only the order in which the members of one tier settle is open, and with it
  which of several rejections \<open>Promise.all\<close> reports. The model reports the first one in
  list order.
\<close>

datatype 'a promise = Resolved 'a | Rejected error

fun Promise_all :: "'a promise list \<Rightarrow> 'a list promise" where
  "Promise_all [] = Resolved []"
| "Promise_all (Rejected e # ps) = Rejected e"
| "Promise_all (Resolved x # ps) =
     (case Promise_all ps of Resolved xs \<Rightarrow> Resolved (x # xs) | Rejected e \<Rightarrow> Rejected e)"

text \<open>\<open>p.then(f)\<close> for a callback that returns a plain value and does not throw.\<close>

fun then_value :: "'a promise \<Rightarrow> ('a \<Rightarrow> 'b) \<Rightarrow> 'b promise" where
  "then_value (Resolved x) f = Resolved (f x)"
| "then_value (Rejected e) f = Rejected e"

text \<open>
  What \<open>condition.evaluate(almanac, operators)\<close> resolves with: \<open>result\<close> and
  \<open>leftHandSideValue\<close>.
\<close>

datatype 'v evaluationResult = EvaluationResult (er_result: bool) (leftHandSideValue: 'v)

text \<open>
  \<open>Condition.evaluate\<close> is not part of \<open>rule.ts\<close>, and it is the only place where a
  fact is resolved against the fact store. Its outcome on a leaf, for the fact store and
  the operators of one evaluation, is a parameter of the model.
\<close>

type_synonym 'v almanac = "'v condition \<Rightarrow> 'v evaluationResult promise"

text \<open>
  The trace of an evaluation: the calls of \<open>condition.evaluate\<close> (the fact resolutions)
  and the assignments to the fields \<open>factResult\<close> and \<open>result\<close> of a node, for all
  the work the evaluation starts. Members of one tier run interleaved; the trace lists
  them in list order.
\<close>

datatype 'v event =
    Evaluate "'v condition"
  | SetFactResult "'v condition" 'v
  | SetResult "'v condition" bool

text \<open>Reading \<open>this.engine!.operators\<close> while the rule has no engine.\<close>

definition engine_undefined :: error where
  "engine_undefined = Error None ''TypeError: Cannot read properties of undefined''"

subsection \<open>The closures of \<open>evaluate\<close>\<close>

text \<open>
  The closures \<open>evaluateCondition\<close>, \<open>evaluateConditions\<close> and \<open>prioritizeAndRun\<close>
  call one another. The model takes \<open>evaluateCondition\<close> as the argument \<open>ev\<close> of the
  other two and ties the knot in the definition of \<open>evaluateCondition\<close>. A call returns
  \<open>Inl e\<close> when it throws synchronously and \<open>Inr p\<close> when it returns the promise \<open>p\<close>,
  together with its trace.

  \<open>conditions.map(condition => evaluateCondition(condition))\<close>: a throw ends the \<open>map\<close>,
  and the conditions after it are not started.
\<close>

fun map_evaluateCondition ::
  "('c \<Rightarrow> (error + bool promise) \<times> 'e list) \<Rightarrow> 'c list \<Rightarrow> (error + bool promise list) \<times> 'e list" where
  "map_evaluateCondition ev [] = (Inr [], [])"
| "map_evaluateCondition ev (c # cs) =
     (case ev c of
        (Inl e, t) \<Rightarrow> (Inl e, t)
      | (Inr p, t) \<Rightarrow>
          (case map_evaluateCondition ev cs of
             (Inl e, t') \<Rightarrow> (Inl e, t @ t')
           | (Inr ps, t') \<Rightarrow> (Inr (p # ps), t @ t')))"

text \<open>
  \<^verbatim>\<open>
  return Promise.all(conditions.map(condition => evaluateCondition(condition))).then(
    conditionResults => {
      return arrConditionMethod.call(conditionResults, (result: boolean) => result === true);
    });
  \<close>
  \<open>arrConditionMethod\<close> is \<open>Array.prototype.every\<close> or \<open>Array.prototype.some\<close>.
\<close>

definition evaluateConditions ::
  "('c \<Rightarrow> (error + bool promise) \<times> 'e list) \<Rightarrow> 'c list \<Rightarrow> ((bool \<Rightarrow> bool) \<Rightarrow> bool list \<Rightarrow> bool)
     \<Rightarrow> (error + bool promise) \<times> 'e list" where
  "evaluateConditions ev conditions arrConditionMethod =
     (case map_evaluateCondition ev conditions of
        (Inl e, t) \<Rightarrow> (Inl e, t)
      | (Inr ps, t) \<Rightarrow>
          (Inr (then_value (Promise_all ps)
                  (\<lambda>conditionResults. arrConditionMethod (\<lambda>result. result = True) conditionResults)),
           t))"

text \<open>
  One link of the chain that \<open>prioritizeAndRun\<close> builds: \<open>cursor = cursor.then(...)\<close>
  for one tier. The cursor starts as a promise of \<open>null\<close>, so its value is a
  \<open>boolean | null\<close>. A rejected cursor skips the callback. The flag \<open>stop\<close> is
  declared anew for every tier and is false whenever the callback reads it; the tier
  (\<open>set\<close> in the source) is \<open>tier\<close> here. A throw of
  \<open>evaluateConditions\<close> inside the callback rejects the cursor.
  \<^verbatim>\<open>
  let stop = false;
  cursor = cursor.then((setResult: boolean | void) => {
    if ((operator === 'any' && setResult === true) || stop) { stop = true; return true; }
    if ((operator === 'all' && setResult === false) || stop) { stop = true; return false; }
    return evaluateConditions(set, method);
  });
  \<close>
\<close>

definition run_set ::
  "('c \<Rightarrow> (error + bool promise) \<times> 'e list) \<Rightarrow> operator \<Rightarrow> ((bool \<Rightarrow> bool) \<Rightarrow> bool list \<Rightarrow> bool)
     \<Rightarrow> bool option promise \<times> 'e list \<Rightarrow> 'c list \<Rightarrow> bool option promise \<times> 'e list" where
  "run_set ev op method cursor tier =
     (case cursor of
        (Rejected e, t) \<Rightarrow> (Rejected e, t)
      | (Resolved setResult, t) \<Rightarrow>
          (let stop = False in
           if (op = OpAny \<and> setResult = Some True) \<or> stop then (Resolved (Some True), t)
           else if (op = OpAll \<and> setResult = Some False) \<or> stop then (Resolved (Some False), t)
           else (case evaluateConditions ev tier method of
                   (Inl e, t') \<Rightarrow> (Rejected e, t @ t')
                 | (Inr p, t') \<Rightarrow> (then_value p Some, t @ t'))))"

text \<open>
  \<^verbatim>\<open>
  if (conditions.length === 0) { return Promise.resolve(true); }
  let method = Array.prototype.some;
  if (operator === 'all') { method = Array.prototype.every; }
  let orderedSets = this.prioritizeConditions(conditions);
  let cursor = Promise.resolve<boolean>(null as any);
  orderedSets.forEach(set => { ... });
  return cursor;
  \<close>
\<close>

definition prioritizeAndRun ::
  "('v condition \<Rightarrow> (error + bool promise) \<times> 'e list) \<Rightarrow> engine option \<Rightarrow> 'v condition list \<Rightarrow> operator
     \<Rightarrow> bool option promise \<times> 'e list" where
  "prioritizeAndRun ev eng conditions op =
     (if length conditions = 0 then (Resolved (Some True), [])
      else
        (let method = (if op = OpAll then list_all else list_ex);
             orderedSets = prioritizeConditions eng conditions
         in foldl (run_set ev op method) (Resolved None, []) orderedSets))"

definition anyOperation ::
  "('v condition \<Rightarrow> (error + bool promise) \<times> 'e list) \<Rightarrow> engine option \<Rightarrow> 'v condition list
     \<Rightarrow> bool option promise \<times> 'e list" where
  "anyOperation ev eng conditions = prioritizeAndRun ev eng conditions OpAny"

definition allOperation ::
  "('v condition \<Rightarrow> (error + bool promise) \<times> 'e list) \<Rightarrow> engine option \<Rightarrow> 'v condition list
     \<Rightarrow> bool option promise \<times> 'e list" where
  "allOperation ev eng conditions = prioritizeAndRun ev eng conditions OpAll"

text \<open>Only the members of the list are ever handed to \<open>ev\<close>.\<close>

lemma map_evaluateCondition_cong [fundef_cong]:
  assumes "cs = cs'" and "\<And>c. c \<in> set cs' \<Longrightarrow> ev c = ev' c"
  shows "map_evaluateCondition ev cs = map_evaluateCondition ev' cs'"
  using assms(2) unfolding assms(1) by (induction cs') (simp_all cong: prod.case_cong sum.case_cong)

lemma evaluateConditions_cong [fundef_cong]:
  assumes "cs = cs'" and "m = m'" and "\<And>c. c \<in> set cs' \<Longrightarrow> ev c = ev' c"
  shows "evaluateConditions ev cs m = evaluateConditions ev' cs' m'"
  using assms map_evaluateCondition_cong [of cs cs' ev ev'] by (simp add: evaluateConditions_def)

lemma run_set_cong [fundef_cong]:
  assumes "tier = tier'" and "op = op'" and "m = m'" and "cursor = cursor'"
    and "\<And>c. c \<in> set tier' \<Longrightarrow> ev c = ev' c"
  shows "run_set ev op m cursor tier = run_set ev' op' m' cursor' tier'"
  using assms evaluateConditions_cong [of tier tier' m m' ev ev']
  by (simp add: run_set_def cong: prod.case_cong promise.case_cong if_cong)

lemma foldl_run_set_cong:
  assumes "\<And>tier c. tier \<in> set tiers \<Longrightarrow> c \<in> set tier \<Longrightarrow> ev c = ev' c"
  shows "foldl (run_set ev op m) cursor tiers = foldl (run_set ev' op m) cursor tiers"
  using assms
proof (induction tiers arbitrary: cursor)
  case Nil
  show ?case by simp
next
  case (Cons tier tiers)
  have "run_set ev op m cursor tier = run_set ev' op m cursor tier"
    using Cons.prems by (intro run_set_cong) auto
  moreover have "foldl (run_set ev op m) c' tiers = foldl (run_set ev' op m) c' tiers" for c'
    using Cons.prems by (intro Cons.IH) auto
  ultimately show ?case by simp
qed

lemma prioritizeAndRun_cong [fundef_cong]:
  assumes "cs = cs'" and "eng = eng'" and "op = op'" and "\<And>c. c \<in> set cs' \<Longrightarrow> ev c = ev' c"
  shows "prioritizeAndRun ev eng cs op = prioritizeAndRun ev' eng' cs' op'"
proof -
  have "foldl (run_set ev op' m) cursor (prioritizeConditions eng' cs')
        = foldl (run_set ev' op' m) cursor (prioritizeConditions eng' cs')" for m cursor
    by (rule foldl_run_set_cong) (auto dest: tier_members intro: assms(4))
  then show ?thesis using assms(1-3) by (simp add: prioritizeAndRun_def)
qed

lemma anyOperation_cong [fundef_cong]:
  assumes "cs = cs'" and "eng = eng'" and "\<And>c. c \<in> set cs' \<Longrightarrow> ev c = ev' c"
  shows "anyOperation ev eng cs = anyOperation ev' eng' cs'"
  unfolding anyOperation_def using assms by (intro prioritizeAndRun_cong) simp_all

lemma allOperation_cong [fundef_cong]:
  assumes "cs = cs'" and "eng = eng'" and "\<And>c. c \<in> set cs' \<Longrightarrow> ev c = ev' c"
  shows "allOperation ev eng cs = allOperation ev' eng' cs'"
  unfolding allOperation_def using assms by (intro prioritizeAndRun_cong) simp_all

text \<open>
  \<^verbatim>\<open>
  if (condition.isBooleanOperator()) {
    let subConditions = condition.operator ? condition[condition.operator] : null;
    let comparisonPromise;
    if (condition.operator === 'all') { comparisonPromise = allOperation(subConditions); }
    else { comparisonPromise = anyOperation(subConditions); }
    return comparisonPromise.then(comparisonValue => {
      let passes = comparisonValue === true;
      condition.result = passes;
      return passes;
    });
  } else {
    return condition
      .evaluate(almanac, this.engine!.operators)
      .then(evaluationResult => {
        let passes = evaluationResult.result;
        condition.factResult = evaluationResult.leftHandSideValue;
        condition.result = passes;
        return passes;
      })
      .catch(err => {
        if (this.engine!.allowUndefinedFacts && err.code === 'UNDEFINED_FACT') return false;
        throw err;
      });
  }
  \<close>
\<close>

fun evaluateCondition ::
  "'v almanac \<Rightarrow> engine option \<Rightarrow> 'v condition \<Rightarrow> (error + bool promise) \<times> 'v event list" where
  "evaluateCondition almanac eng (Boolean op subConditions prio) =
     (let condition = Boolean op subConditions prio;
          (comparisonPromise, t) =
            (if op = OpAll then allOperation (evaluateCondition almanac eng) eng subConditions
             else anyOperation (evaluateCondition almanac eng) eng subConditions)
      in case comparisonPromise of
           Resolved comparisonValue \<Rightarrow>
             (let passes = (comparisonValue = Some True)
              in (Inr (Resolved passes), t @ [SetResult condition passes]))
         | Rejected e \<Rightarrow> (Inr (Rejected e), t))"
| "evaluateCondition almanac eng (Leaf f cmp v prio) =
     (let condition = Leaf f cmp v prio in
      case eng of
        None \<Rightarrow> (Inl engine_undefined, [])
      | Some engine \<Rightarrow>
          (case almanac condition of
             Resolved evaluationResult \<Rightarrow>
               (let passes = er_result evaluationResult
                in (Inr (Resolved passes),
                    [Evaluate condition,
                     SetFactResult condition (leftHandSideValue evaluationResult),
                     SetResult condition passes]))
           | Rejected err \<Rightarrow>
               (if allowUndefinedFacts engine \<and> code err = Some ''UNDEFINED_FACT''
                then (Inr (Resolved False), [Evaluate condition])
                else (Inr (Rejected err), [Evaluate condition]))))"

section \<open>Configuration of a rule\<close>

subsection \<open>\<open>parseInt\<close> and the conversion of a value to a string\<close>

text \<open>
  A value of type \<open>number | string\<close>, or \<open>undefined\<close> or \<open>null\<close> where a definition
  leaves the priority out (\<open>null\<close> is what JSON text holds for \<open>NaN\<close>).
\<close>

datatype prim = Undefined | Null | Num number | Str string

fun prim_truthy :: "prim \<Rightarrow> bool" where
  "prim_truthy Undefined = False"
| "prim_truthy Null = False"
| "prim_truthy (Num n) = (truthy (Some n) \<noteq> None)"
| "prim_truthy (Str s) = (s \<noteq> [])"

definition digit_char :: "int \<Rightarrow> char" where
  "digit_char d = char_of (48 + d)"

function digits_of :: "int \<Rightarrow> string" where
  "digits_of n = (if n < 10 then [digit_char n] else digits_of (n div 10) @ [digit_char (n mod 10)])"
  by pat_completeness auto
termination
  by (relation "measure nat") auto

declare digits_of.simps [simp del]

text \<open>
  \<open>Number::toString\<close> on an integer: decimal digits below \<open>10^21\<close>, and from there on
  the exponent form (\<open>1e+21\<close>, \<open>1.5e+21\<close>).
\<close>

definition Number_toString :: "number \<Rightarrow> string" where
  "Number_toString x =
     (case x of
        NaN \<Rightarrow> ''NaN''
      | Number n \<Rightarrow>
          (let m = \<bar>n\<bar>; sign = (if n < 0 then ''-'' else [])
           in if m < 10 ^ 21 then sign @ digits_of m
              else (let ds = digits_of m;
                        mantissa = rev (dropWhile (\<lambda>c. c = CHR ''0'') (rev ds))
                    in sign
                       @ (case mantissa of
                            [] \<Rightarrow> []
                          | d # rest \<Rightarrow> d # (if rest = [] then [] else CHR ''.'' # rest))
                       @ ''e+'' @ digits_of (int (length ds) - 1))))"

fun ToString :: "prim \<Rightarrow> string" where
  "ToString Undefined = ''undefined''"
| "ToString Null = ''null''"
| "ToString (Num x) = Number_toString x"
| "ToString (Str s) = s"

text \<open>
  \<open>parseInt(string, 10)\<close>: leading white space is skipped, a sign is read, and the
  longest run of decimal digits is the value; with no digit the result is \<open>NaN\<close>.
  Strings are taken as ASCII (the white space outside ASCII is not modelled).
\<close>

definition is_whitespace :: "char \<Rightarrow> bool" where
  "is_whitespace c = (c \<in> set [CHR 0x09, CHR 0x0A, CHR 0x0B, CHR 0x0C, CHR 0x0D, CHR '' ''])"

definition is_digit :: "char \<Rightarrow> bool" where
  "is_digit c = (48 \<le> (of_char c :: int) \<and> (of_char c :: int) \<le> 57)"

definition digits_value :: "string \<Rightarrow> int" where
  "digits_value ds = foldl (\<lambda>acc c. 10 * acc + (of_char c - 48)) 0 ds"

definition parseInt :: "string \<Rightarrow> number" where
  "parseInt inputString =
     (let s = dropWhile is_whitespace inputString;
          (sign, s') = (case s of
                          [] \<Rightarrow> (1, s)
                        | c # rest \<Rightarrow> if c = CHR ''-'' then (- 1, rest)
                                     else if c = CHR ''+'' then (1, rest) else (1, s));
          z = takeWhile is_digit s'
      in if z = [] then NaN else Number (sign * digits_value z))"

text \<open>\<open>x <= 0\<close> on a number: false for \<open>NaN\<close>.\<close>

fun number_le_zero :: "number \<Rightarrow> bool" where
  "number_le_zero NaN = False"
| "number_le_zero (Number n) = (n \<le> 0)"

subsection \<open>The rule and its setters\<close>

text \<open>
  The payload of an event (\<open>params\<close>), the definition of a condition and the expected
  value of a leaf are JavaScript values of any kind: \<open>undefined\<close>, \<open>null\<close>, a boolean, a
  number (an integer, \<open>NaN\<close>, \<open>Infinity\<close> or \<open>-Infinity\<close>), a string, an array, a plain
  object (its own enumerable members, in the order of enumeration, under distinct keys)
  or a function. Instances of classes such as \<open>Date\<close> are not modelled.
\<close>

datatype js = JUndefined | JNull | JBool bool | JNumber int | JNaN | JInfinity | JMinusInfinity
  | JString string | JArray "js list" | JObject "(string \<times> js) list" | JFunction nat

fun js_truthy :: "js \<Rightarrow> bool" where
  "js_truthy JUndefined = False"
| "js_truthy JNull = False"
| "js_truthy (JBool b) = b"
| "js_truthy (JNumber n) = (n \<noteq> 0)"
| "js_truthy JNaN = False"
| "js_truthy (JString s) = (s \<noteq> [])"
| "js_truthy _ = True"

text \<open>
  Modelled from the spec: the interface \<open>Action\<close> (\<open>./action.interface\<close>) is not part
  of \<open>rule.ts\<close>: \<open>{type, params?}\<close>. An event handed to \<open>setEvent\<close> may lack the
  property \<open>type\<close>; the event a rule stores always has it.
\<close>

record action_options =
  opt_type :: "string option"
  opt_params :: "js option"

record action =
  type :: string
  params :: "js option"

text \<open>
  The fields of a \<open>Rule\<close>, and the listeners its \<open>EventEmitter\<close> holds, in the order
  of their registration (\<open>this.on(name, listener)\<close>).
\<close>

record ('v, 'l) rule =
  rule_priority :: "number option"
  rule_conditions :: "'v condition option"
  rule_event :: "action option"
  rule_engine :: "engine option"
  listeners :: "(string \<times> 'l) list"

definition new_object :: "('v, 'l) rule" where
  "new_object = \<lparr>rule_priority = None, rule_conditions = None, rule_event = None,
                  rule_engine = None, listeners = []\<rparr>"

text \<open>
  A setter returns \<open>this\<close> or throws; the model returns which, and the state of the
  rule after the call.
\<close>

datatype outcome = ReturnsThis | Throws error

text \<open>
  \<^verbatim>\<open>
  priority = parseInt(priority as string, 10);
  if (priority <= 0) { throw new Error('Priority must be greater than zero'); }
  this.priority = priority;
  return this;
  \<close>
\<close>

definition setPriority :: "prim \<Rightarrow> ('v, 'l) rule \<Rightarrow> outcome \<times> ('v, 'l) rule" where
  "setPriority priority_arg this =
     (let parsed = parseInt (ToString priority_arg)
      in if number_le_zero parsed
         then (Throws (Error None ''Priority must be greater than zero''), this)
         else (ReturnsThis, this\<lparr>rule_priority := Some parsed\<rparr>))"

text \<open>
  Modelled from the spec: the constructor of \<open>Condition\<close> and \<open>Condition.toJSON\<close> are
  not part of \<open>rule.ts\<close>, and neither is the type \<open>ConditionConstructorOptions\<close> of a
  condition definition. They are parameters of the model: \<open>'d\<close> is the type of a
  definition, \<open>hasOwnProperty d k\<close> says whether the definition has the key \<open>k\<close>,
  \<open>Condition_new d\<close> is \<open>new Condition(d)\<close>, which may throw, and \<open>Condition_toJSON c\<close>
  is \<open>c.toJSON(false)\<close>.
\<close>

record ('d, 'v) condition_class =
  hasOwnProperty :: "'d \<Rightarrow> string \<Rightarrow> bool"
  Condition_new :: "'d \<Rightarrow> error + 'v condition"
  Condition_toJSON :: "'v condition \<Rightarrow> 'd"

definition conditions_root_message :: string where
  "conditions_root_message =
     CHR 0x22 # ''conditions'' @ CHR 0x22 # '' root must contain a single instance of ''
       @ CHR 0x22 # ''all'' @ CHR 0x22 # '' or '' @ CHR 0x22 # ''any'' @ [CHR 0x22]"

text \<open>
  \<^verbatim>\<open>
  if (!conditions.hasOwnProperty('all') && !conditions.hasOwnProperty('any')) {
    throw new Error('"conditions" root must contain a single instance of "all" or "any"');
  }
  this.conditions = new Condition(conditions);
  return this;
  \<close>
\<close>

definition setConditions ::
  "('d, 'v) condition_class \<Rightarrow> 'd \<Rightarrow> ('v, 'l) rule \<Rightarrow> outcome \<times> ('v, 'l) rule" where
  "setConditions cls conditions this =
     (if \<not> hasOwnProperty cls conditions ''all'' \<and> \<not> hasOwnProperty cls conditions ''any''
      then (Throws (Error None conditions_root_message), this)
      else (case Condition_new cls conditions of
              Inl e \<Rightarrow> (Throws e, this)
            | Inr c \<Rightarrow> (ReturnsThis, this\<lparr>rule_conditions := Some c\<rparr>)))"

text \<open>
  \<^verbatim>\<open>
  if (!event) throw new Error('Rule: setEvent() requires event object');
  if (!event.hasOwnProperty('type'))
    throw new Error('Rule: setEvent() requires event object with "type" property');
  this.event = { type: event.type };
  if (event.params) this.event.params = event.params;
  return this;
  \<close>
\<close>

definition event_type_message :: string where
  "event_type_message =
     ''Rule: setEvent() requires event object with '' @ CHR 0x22 # ''type'' @ CHR 0x22 # '' property''"

definition setEvent :: "action_options option \<Rightarrow> ('v, 'l) rule \<Rightarrow> outcome \<times> ('v, 'l) rule" where
  "setEvent event this =
     (case event of
        None \<Rightarrow> (Throws (Error None ''Rule: setEvent() requires event object''), this)
      | Some ev \<Rightarrow>
          (case opt_type ev of
             None \<Rightarrow> (Throws (Error None event_type_message), this)
           | Some ty \<Rightarrow>
               (let event1 = \<lparr>type = ty, params = None\<rparr>;
                    event2 = (case opt_params ev of
                                Some ps \<Rightarrow> if js_truthy ps then event1\<lparr>params := Some ps\<rparr> else event1
                              | None \<Rightarrow> event1)
                in (ReturnsThis, this\<lparr>rule_event := Some event2\<rparr>))))"

definition setEngine :: "engine \<Rightarrow> ('v, 'l) rule \<Rightarrow> outcome \<times> ('v, 'l) rule" where
  "setEngine engine this = (ReturnsThis, this\<lparr>rule_engine := Some engine\<rparr>)"

text \<open>\<open>this.on(name, listener)\<close>.\<close>

definition on :: "string \<Rightarrow> 'l \<Rightarrow> ('v, 'l) rule \<Rightarrow> outcome \<times> ('v, 'l) rule" where
  "on name listener this = (ReturnsThis, this\<lparr>listeners := listeners this @ [(name, listener)]\<rparr>)"

subsection \<open>Construction and serialization\<close>

text \<open>
  The definition a rule is built from: \<open>{conditions, event, priority?, onSuccess?,
  onFailure?}\<close>. A missing or \<open>null\<close> member is \<open>None\<close> (\<open>Undefined\<close> or \<open>Null\<close> for
  the priority).
\<close>

record ('d, 'l) options =
  options_conditions :: "'d option"
  options_event :: "action_options option"
  options_priority :: prim
  onSuccess :: "'l option"
  onFailure :: "'l option"

text \<open>
  A JSON text is represented by what \<open>JSON.parse\<close> makes of it: a \<open>SyntaxError\<close>, or
  the parsed value (\<open>None\<close> for the text \<open>null\<close>).
\<close>

datatype ('d, 'l) json_text = JsonText (JSON_parse: "error + ('d, 'l) options option")

datatype ('d, 'l) constructor_argument =
    FromString "('d, 'l) json_text"
  | FromOptions "('d, 'l) options option"

text \<open>
  The calls the constructor makes on the new object, in the order of the source:
  \<^verbatim>\<open>
  if (scopedOptions && scopedOptions.conditions) { this.setConditions(scopedOptions.conditions); }
  if (scopedOptions && scopedOptions.onSuccess) { this.on('success', scopedOptions.onSuccess); }
  if (scopedOptions && scopedOptions.onFailure) { this.on('failure', scopedOptions.onFailure); }
  let priority = (scopedOptions && scopedOptions.priority) || 1;
  this.setPriority(priority);
  let event = (scopedOptions && scopedOptions.event) || { type: 'unknown' };
  this.setEvent(event);
  \<close>
\<close>

datatype ('d, 'l) call =
    SetConditions 'd
  | On string 'l
  | SetPriority prim
  | SetEvent "action_options option"

definition constructor_calls :: "('d, 'l) options option \<Rightarrow> ('d, 'l) call list" where
  "constructor_calls scopedOptions =
     (case scopedOptions of
        None \<Rightarrow> []
      | Some opts \<Rightarrow> (case options_conditions opts of Some c \<Rightarrow> [SetConditions c] | None \<Rightarrow> []))
     @ (case scopedOptions of
          None \<Rightarrow> []
        | Some opts \<Rightarrow> (case onSuccess opts of Some f \<Rightarrow> [On ''success'' f] | None \<Rightarrow> []))
     @ (case scopedOptions of
          None \<Rightarrow> []
        | Some opts \<Rightarrow> (case onFailure opts of Some f \<Rightarrow> [On ''failure'' f] | None \<Rightarrow> []))
     @ [SetPriority
          (let p = (case scopedOptions of None \<Rightarrow> Undefined | Some opts \<Rightarrow> options_priority opts)
           in if prim_truthy p then p else Num (Number 1))]
     @ [SetEvent
          (case (case scopedOptions of None \<Rightarrow> None | Some opts \<Rightarrow> options_event opts) of
             Some e \<Rightarrow> Some e
           | None \<Rightarrow> Some \<lparr>opt_type = Some ''unknown'', opt_params = None\<rparr>)]"

fun perform :: "('d, 'v) condition_class \<Rightarrow> ('d, 'l) call \<Rightarrow> ('v, 'l) rule \<Rightarrow> outcome \<times> ('v, 'l) rule" where
  "perform cls (SetConditions d) this = setConditions cls d this"
| "perform cls (On name f) this = on name f this"
| "perform cls (SetPriority p) this = setPriority p this"
| "perform cls (SetEvent e) this = setEvent e this"

text \<open>The calls in sequence; the first throw leaves the constructor.\<close>

fun perform_all ::
  "('d, 'v) condition_class \<Rightarrow> ('d, 'l) call list \<Rightarrow> ('v, 'l) rule \<Rightarrow> error + ('v, 'l) rule" where
  "perform_all cls [] this = Inr this"
| "perform_all cls (c # cs) this =
     (case perform cls c this of
        (Throws e, _) \<Rightarrow> Inl e
      | (ReturnsThis, this') \<Rightarrow> perform_all cls cs this')"

text \<open>
  \<^verbatim>\<open>
  if (typeof options === 'string') { scopedOptions = JSON.parse(options); }
  else { scopedOptions = options; }
  \<close>
\<close>

definition Rule_new ::
  "('d, 'v) condition_class \<Rightarrow> ('d, 'l) constructor_argument \<Rightarrow> error + ('v, 'l) rule" where
  "Rule_new cls options =
     (case options of
        FromString text \<Rightarrow>
          (case JSON_parse text of
             Inl e \<Rightarrow> Inl e
           | Inr scopedOptions \<Rightarrow> perform_all cls (constructor_calls scopedOptions) new_object)
      | FromOptions scopedOptions \<Rightarrow> perform_all cls (constructor_calls scopedOptions) new_object)"

text \<open>
  \<^verbatim>\<open>
  let props = {
    conditions: this.conditions ? this.conditions.toJSON(false) : null,
    priority: this.priority,
    event: this.event
  };
  if (stringify) { return JSON.stringify(props); }
  return props;
  \<close>
\<close>

record 'd props =
  props_conditions :: "'d option"
  props_priority :: "number option"
  props_event :: "action option"

text \<open>
  \<open>JSON_of v\<close> is the value that \<open>JSON.parse\<close> reads back from the text that
  \<open>JSON.stringify\<close> writes for \<open>v\<close>. For \<open>undefined\<close> and for a function there is no
  text (\<open>None\<close>): as an element of an array they are written \<open>null\<close>, and as the member
  of an object they are left out. \<open>NaN\<close> and the infinities are written \<open>null\<close>. Every
  other value is written as it is, arrays and objects member by member.
\<close>

fun JSON_of :: "js \<Rightarrow> js option" where
  "JSON_of JUndefined = None"
| "JSON_of (JFunction f) = None"
| "JSON_of JNaN = Some JNull"
| "JSON_of JInfinity = Some JNull"
| "JSON_of JMinusInfinity = Some JNull"
| "JSON_of (JArray xs) = Some (JArray (map (\<lambda>x. case JSON_of x of None \<Rightarrow> JNull | Some y \<Rightarrow> y) xs))"
| "JSON_of (JObject kvs) =
     Some (JObject (concat (map (\<lambda>(k, v). case JSON_of v of None \<Rightarrow> [] | Some y \<Rightarrow> [(k, y)]) kvs)))"
| "JSON_of v = Some v"

text \<open>
  JSON data: \<open>null\<close>, booleans, integers, strings, and the arrays and objects of JSON
  data.
\<close>

fun json_data :: "js \<Rightarrow> bool" where
  "json_data JNull = True"
| "json_data (JBool b) = True"
| "json_data (JNumber n) = True"
| "json_data (JString s) = True"
| "json_data (JArray xs) = list_all json_data xs"
| "json_data (JObject kvs) = list_all (\<lambda>(k, v). json_data v) kvs"
| "json_data _ = False"

text \<open>
  \<open>JSON.stringify\<close> on the properties, the text being given by what \<open>JSON.parse\<close> makes
  of it. The priority \<open>NaN\<close> is written \<open>null\<close>, and a priority that is \<open>undefined\<close> is
  left out. The definition of the conditions and the payload of the event come back as
  \<open>JSON_of\<close> has them; a definition that is left out, or that comes back as a value
  which JavaScript takes for false, is one that the constructor passes over.
\<close>

definition JSON_stringify :: "js props \<Rightarrow> (js, 'l) json_text" where
  "JSON_stringify props =
     JsonText (Inr (Some
       \<lparr>options_conditions =
          (case props_conditions props of
             None \<Rightarrow> None
           | Some d \<Rightarrow>
               (case JSON_of d of
                  None \<Rightarrow> None
                | Some d' \<Rightarrow> if js_truthy d' then Some d' else None)),
        options_event =
          (case props_event props of
             None \<Rightarrow> None
           | Some a \<Rightarrow>
               Some \<lparr>opt_type = Some (type a),
                     opt_params = (case params a of None \<Rightarrow> None | Some ps \<Rightarrow> JSON_of ps)\<rparr>),
        options_priority =
          (case props_priority props of
             None \<Rightarrow> Undefined
           | Some NaN \<Rightarrow> Null
           | Some (Number n) \<Rightarrow> Num (Number n)),
        onSuccess = None,
        onFailure = None\<rparr>))"

datatype ('d, 'l) serialized =
    AsString (as_string: "('d, 'l) json_text")
  | AsProps (as_props: "'d props")

definition toJSON :: "(js, 'v) condition_class \<Rightarrow> bool \<Rightarrow> ('v, 'l) rule \<Rightarrow> (js, 'l) serialized" where
  "toJSON cls stringify this =
     (let props = \<lparr>props_conditions =
                     (case rule_conditions this of
                        Some c \<Rightarrow> Some (Condition_toJSON cls c)
                      | None \<Rightarrow> None),
                   props_priority = rule_priority this,
                   props_event = rule_event this\<rparr>
      in if stringify then AsString (JSON_stringify props) else AsProps props)"

subsection \<open>The class \<open>Condition\<close>\<close>

text \<open>
  Modelled from the spec: an instance of the parameters above, for the claims about
  serialization, since the class \<open>Condition\<close> is not part of \<open>rule.ts\<close>. The definition
  of a condition is an object: that of a boolean node holds the list of the definitions
  of its children under \<open>all\<close> or under \<open>any\<close>, that of a leaf holds \<open>fact\<close>,
  \<open>operator\<close> and \<open>value\<close>, and both may hold an integer \<open>priority\<close>.
  \<open>new Condition(d)\<close> builds the node of a definition, the children recursively, and
  \<open>c.toJSON(false)\<close> renders a node as a definition of the same shape, the children
  recursively. The spec leaves open what the constructor does with a definition of
  neither shape, and which operator it reads from a definition with both keys: here it
  throws, and reads \<open>any\<close>.
\<close>

text \<open>
  \<open>d.hasOwnProperty(k)\<close>, and the property read \<open>d[k]\<close>, which is \<open>undefined\<close> for a
  property that is not there.
\<close>

definition has_own :: "js \<Rightarrow> string \<Rightarrow> bool" where
  "has_own d k = (case d of JObject kvs \<Rightarrow> k \<in> fst ` set kvs | _ \<Rightarrow> False)"

definition property :: "js \<Rightarrow> string \<Rightarrow> js" where
  "property d k =
     (case d of
        JObject kvs \<Rightarrow> (case map_of kvs k of Some x \<Rightarrow> x | None \<Rightarrow> JUndefined)
      | _ \<Rightarrow> JUndefined)"

text \<open>The optional priority of a definition: an integer, or none.\<close>

definition definition_priority :: "js \<Rightarrow> number option" where
  "definition_priority d =
     (case property d ''priority'' of
        JNumber n \<Rightarrow> Some (Number n)
      | _ \<Rightarrow> None)"

text \<open>The results of a list of calls that may throw: the first error, or all the values.\<close>

fun collect :: "('e + 'a) list \<Rightarrow> 'e + 'a list" where
  "collect [] = Inr []"
| "collect (Inl e # rs) = Inl e"
| "collect (Inr x # rs) = (case collect rs of Inl e \<Rightarrow> Inl e | Inr xs \<Rightarrow> Inr (x # xs))"

lemma size_map_of:
  "map_of kvs k = Some x \<Longrightarrow> size x < Suc (size_list (size_prod (\<lambda>_. 0) size) kvs)"
  by (induction kvs) (auto split: if_splits)

lemma size_property:
  assumes "property d k = JArray ds" and "x \<in> set ds"
  shows "size x < size d"
proof -
  have "size x < size (JArray ds)" using assms(2) by (induction ds) auto
  moreover have "size (JArray ds) \<le> size d"
  proof (cases d)
    case (JObject kvs)
    then have "map_of kvs k = Some (JArray ds)"
      using assms(1) by (simp add: property_def split: option.splits)
    then show ?thesis using size_map_of [of kvs k "JArray ds"] JObject by simp
  qed (use assms(1) in \<open>simp_all add: property_def\<close>)
  ultimately show ?thesis by simp
qed

function Condition_of :: "js \<Rightarrow> error + js condition" where
  "Condition_of d =
     (if has_own d ''all'' \<or> has_own d ''any''
      then (let op = (if has_own d ''any'' then OpAny else OpAll);
                subConditions = property d (if has_own d ''any'' then ''any'' else ''all'')
            in case subConditions of
                 JArray ds \<Rightarrow>
                   (case collect (map Condition_of ds) of
                      Inl e \<Rightarrow> Inl e
                    | Inr cs \<Rightarrow> Inr (Boolean op cs (definition_priority d)))
               | _ \<Rightarrow> Inl (Error None ''Condition: the conditions of a boolean operator must be an array''))
      else (case (property d ''fact'', property d ''operator'') of
              (JString f, JString cmp) \<Rightarrow>
                 if has_own d ''value''
                 then Inr (Leaf f cmp (property d ''value'') (definition_priority d))
                 else Inl (Error None ''Condition: a leaf requires a value'')
            | _ \<Rightarrow> Inl (Error None ''Condition: a leaf requires a fact and an operator'')))"
  by pat_completeness auto
termination
  by (relation "measure size") (auto intro: size_property [OF sym])

declare Condition_of.simps [simp del]

fun priority_member :: "number option \<Rightarrow> (string \<times> js) list" where
  "priority_member None = []"
| "priority_member (Some (Number n)) = [(''priority'', JNumber n)]"
| "priority_member (Some NaN) = [(''priority'', JNaN)]"

fun Condition_definition :: "js condition \<Rightarrow> js" where
  "Condition_definition (Leaf f cmp v p) =
     JObject ([(''fact'', JString f), (''operator'', JString cmp), (''value'', v)] @ priority_member p)"
| "Condition_definition (Boolean op cs p) =
     JObject ((if op = OpAll then ''all'' else ''any'', JArray (map Condition_definition cs))
              # priority_member p)"

definition Condition_class :: "(js, js) condition_class" where
  "Condition_class = \<lparr>hasOwnProperty = has_own,
                      Condition_new = Condition_of,
                      Condition_toJSON = Condition_definition\<rparr>"

text \<open>
  The explicit priorities of a tree are integers, as the spec has them, and the values
  that its leaves expect are JSON data.
\<close>

fun integer_priorities :: "'v condition \<Rightarrow> bool" where
  "integer_priorities (Leaf f cmp v p) = (p \<noteq> Some NaN)"
| "integer_priorities (Boolean op cs p) = (list_all integer_priorities cs \<and> p \<noteq> Some NaN)"

fun json_leaves :: "js condition \<Rightarrow> bool" where
  "json_leaves (Leaf f cmp v p) = json_data v"
| "json_leaves (Boolean op cs p) = list_all json_leaves cs"

subsection \<open>\<open>evaluate\<close> and the notification of the listeners\<close>

text \<open>
  Modelled from the spec: the class \<open>RuleResult\<close> (\<open>./rule-result\<close>) is not part of
  \<open>rule.ts\<close>: the condition tree, the event, the priority, and the \<open>result\<close> that
  \<open>setResult\<close> stores.
\<close>

record 'v ruleResult =
  rr_conditions :: "'v condition"
  rr_event :: "action option"
  rr_priority :: "number option"
  rr_result :: "bool option"

text \<open>
  \<open>this.emit(name, ...)\<close> calls the listeners registered under the name, in the order of
  registration; the model returns who is called. Listeners are taken to return normally.
\<close>

definition emit :: "('v, 'l) rule \<Rightarrow> string \<Rightarrow> (string \<times> 'l) list" where
  "emit this name = filter (\<lambda>(n, l). n = name) (listeners this)"

text \<open>
  \<^verbatim>\<open>
  let processResult = (result: any) => {
    ruleResult.setResult(result);
    if (result) this.emit('success', ruleResult.event, almanac, ruleResult);
    else this.emit('failure', ruleResult.event, almanac, ruleResult);
    return ruleResult;
  };
  \<close>
\<close>

definition processResult ::
  "('v, 'l) rule \<Rightarrow> 'v ruleResult \<Rightarrow> bool option \<Rightarrow> 'v ruleResult \<times> (string \<times> 'l) list" where
  "processResult this ruleResult res =
     (let ruleResult' = ruleResult\<lparr>rr_result := res\<rparr>
      in if res = Some True then (ruleResult', emit this ''success'')
         else (ruleResult', emit this ''failure''))"

text \<open>
  What a call of \<open>evaluate\<close> gives: \<open>Inl e\<close> when it throws, else the final state of
  the promise it returns; the listeners it has notified; and its trace.
\<close>

record ('v, 'l) evaluation =
  returned :: "error + 'v ruleResult promise"
  notified :: "(string \<times> 'l) list"
  trace :: "'v event list"

definition length_of_undefined :: error where
  "length_of_undefined = Error None ''TypeError: Cannot read properties of undefined''"

text \<open>
  \<^verbatim>\<open>
  if (!this.conditions) {
    throw new Error('Rule: evaluate () requires the rule to have a conditions property');
  }
  let ruleResult = new RuleResult(this.conditions, this.event, this.priority);
  ...
  if (ruleResult.conditions.any) {
    return anyOperation(ruleResult.conditions.any).then(result => processResult(result));
  } else {
    return allOperation(ruleResult.conditions.all).then(result => processResult(result));
  }
  \<close>
  A root that is a leaf has neither \<open>any\<close> nor \<open>all\<close>: \<open>allOperation(undefined)\<close>
  throws on \<open>conditions.length\<close>.
\<close>

definition evaluate :: "'v almanac \<Rightarrow> ('v, 'l) rule \<Rightarrow> ('v, 'l) evaluation" where
  "evaluate almanac this =
     (case rule_conditions this of
        None \<Rightarrow>
          \<lparr>returned = Inl (Error None ''Rule: evaluate () requires the rule to have a conditions property''),
           notified = [], trace = []\<rparr>
      | Some conditions \<Rightarrow>
          (let ruleResult = \<lparr>rr_conditions = conditions, rr_event = rule_event this,
                             rr_priority = rule_priority this, rr_result = None\<rparr>;
               ev = evaluateCondition almanac (rule_engine this)
           in case conditions of
                Leaf _ _ _ _ \<Rightarrow> \<lparr>returned = Inl length_of_undefined, notified = [], trace = []\<rparr>
              | Boolean op subConditions _ \<Rightarrow>
                  (let (p, t) = (if op = OpAny then anyOperation ev (rule_engine this) subConditions
                                 else allOperation ev (rule_engine this) subConditions)
                   in case p of
                        Rejected e \<Rightarrow> \<lparr>returned = Inr (Rejected e), notified = [], trace = t\<rparr>
                      | Resolved res \<Rightarrow>
                          (let (ruleResult', called) = processResult this ruleResult res
                           in \<lparr>returned = Inr (Resolved ruleResult'), notified = called, trace = t\<rparr>))))"

section \<open>Properties of the configuration\<close>

subsection \<open>\<open>setPriority\<close>\<close>

lemma parseInt_examples:
  "parseInt (ToString (Str ''5'')) = Number 5"
  "parseInt (ToString (Num (Number 7))) = Number 7"
  "parseInt (ToString (Str ''0'')) = Number 0"
  "parseInt (ToString (Str '' -3px'')) = Number (- 3)"
  "parseInt (ToString (Str ''abc'')) = NaN"
  "parseInt (ToString (Str [])) = NaN"
  by code_simp+

text \<open>
  C7. For every input whose integer parse is strictly greater than zero, \<open>setPriority\<close>
  stores the parsed integer as the priority of the rule and returns the rule; for every
  input whose parse is less than or equal to zero it throws the error
  \<open>Priority must be greater than zero\<close> and the stored priority is unchanged.
\<close>

theorem setPriority_parsed:
  "(parseInt (ToString p) = Number n \<and> 0 < n \<longrightarrow>
      setPriority p this = (ReturnsThis, this\<lparr>rule_priority := Some (Number n)\<rparr>))
   \<and> (parseInt (ToString p) = Number n \<and> n \<le> 0 \<longrightarrow>
      setPriority p this = (Throws (Error None ''Priority must be greater than zero''), this))"
  by (simp add: setPriority_def)

theorem setPriority_parsed_witness:
  "setPriority (Str ''5'') (new_object :: (nat, nat) rule)
     = (ReturnsThis, new_object\<lparr>rule_priority := Some (Number 5)\<rparr>)
   \<and> setPriority (Num (Number 7)) (new_object :: (nat, nat) rule)
     = (ReturnsThis, new_object\<lparr>rule_priority := Some (Number 7)\<rparr>)
   \<and> setPriority (Str '' -3px'') (new_object :: (nat, nat) rule)
     = (Throws (Error None ''Priority must be greater than zero''), new_object)
   \<and> setPriority (Str ''0'') (new_object :: (nat, nat) rule)
     = (Throws (Error None ''Priority must be greater than zero''), new_object)"
  using setPriority_parsed [of "Str ''5''" 5 "new_object :: (nat, nat) rule"]
    setPriority_parsed [of "Num (Number 7)" 7 "new_object :: (nat, nat) rule"]
    setPriority_parsed [of "Str '' -3px''" "- 3" "new_object :: (nat, nat) rule"]
    setPriority_parsed [of "Str ''0''" 0 "new_object :: (nat, nat) rule"]
  by (simp only: parseInt_examples) simp

text \<open>The invariant of the data model: the priority of a rule is an integer, at least 1.\<close>

definition priority_invariant :: "number option \<Rightarrow> bool" where
  "priority_invariant p = (case p of Some (Number n) \<Rightarrow> 1 \<le> n | _ \<Rightarrow> False)"

text \<open>
  C10. For every input that does not parse to a number (\<open>parseInt\<close> yields \<open>NaN\<close>),
  \<open>setPriority\<close> does not throw: the guard is false for \<open>NaN\<close>, so \<open>NaN\<close> is stored
  as the priority and the rule is returned, with a priority that violates the invariant.
\<close>

theorem setPriority_NaN:
  "parseInt (ToString p) = NaN \<Longrightarrow>
     setPriority p this = (ReturnsThis, this\<lparr>rule_priority := Some NaN\<rparr>)
     \<and> \<not> priority_invariant (rule_priority (snd (setPriority p this)))"
  by (simp add: setPriority_def priority_invariant_def)

theorem setPriority_NaN_witness:
  "parseInt (ToString (Str ''abc'')) = NaN
   \<and> setPriority (Str ''abc'') (new_object :: (nat, nat) rule)
       = (ReturnsThis, new_object\<lparr>rule_priority := Some NaN\<rparr>)
   \<and> \<not> priority_invariant (rule_priority (snd (setPriority (Str ''abc'') (new_object :: (nat, nat) rule))))"
proof -
  have h: "parseInt (ToString (Str ''abc'')) = NaN"
    by (rule parseInt_examples)
  from h setPriority_NaN [OF h] show ?thesis by blast
qed

section \<open>Properties of the evaluation\<close>

text \<open>
  C6. For every evaluation of a sibling condition list that is empty, the aggregate result
  is true, under \<open>all\<close> and under \<open>any\<close>; nothing is evaluated, and a boolean node
  without children passes.
\<close>

theorem empty_list_is_true:
  "prioritizeAndRun ev eng [] op = (Resolved (Some True), [])
   \<and> allOperation ev eng [] = (Resolved (Some True), [])
   \<and> anyOperation ev eng [] = (Resolved (Some True), [])
   \<and> evaluateCondition almanac eng (Boolean op [] prio)
       = (Inr (Resolved True), [SetResult (Boolean op [] prio) True])"
  by (simp add: prioritizeAndRun_def allOperation_def anyOperation_def)

subsection \<open>What a tier starts, and how a rejection travels\<close>

lemma map_evaluateCondition_event:
  assumes "a \<in> set (snd (map_evaluateCondition ev tier))"
  shows "\<exists>x \<in> set tier. a \<in> set (snd (ev x))"
  using assms
proof (induction tier)
  case Nil
  then show ?case by simp
next
  case (Cons c cs)
  then show ?case
    by (auto split: prod.splits sum.splits)
qed

lemma map_evaluateCondition_rejected:
  assumes "x \<in> set tier" and "fst (ev x) = Inr (Rejected e)"
  shows "(\<exists>e'. fst (map_evaluateCondition ev tier) = Inl e')
         \<or> (\<exists>ps e'. fst (map_evaluateCondition ev tier) = Inr ps \<and> Promise_all ps = Rejected e')"
  using assms
proof (induction tier)
  case Nil
  then show ?case by simp
next
  case (Cons c cs)
  show ?case
  proof (cases "ev c")
    case (Pair r t)
    show ?thesis
    proof (cases r)
      case (Inl e0)
      then show ?thesis using Pair by simp
    next
      case (Inr p)
      obtain r' t' where rest: "map_evaluateCondition ev cs = (r', t')"
        by (cases "map_evaluateCondition ev cs")
      show ?thesis
      proof (cases r')
        case (Inl e0)
        then show ?thesis using Pair Inr rest by simp
      next
        case ps: (Inr ps)
        show ?thesis
        proof (cases "x = c")
          case True
          then have "p = Rejected e" using Cons.prems Pair Inr by simp
          then show ?thesis using Pair Inr rest ps by simp
        next
          case False
          then have "x \<in> set cs" using Cons.prems by simp
          from Cons.IH [OF this Cons.prems(2)] rest ps
          obtain e' where "Promise_all ps = Rejected e'" by auto
          then show ?thesis using Pair Inr rest ps by (cases p) simp_all
        qed
      qed
    qed
  qed
qed

lemma evaluateConditions_rejected:
  assumes "x \<in> set tier" and "fst (ev x) = Inr (Rejected e)"
  shows "fst (evaluateConditions ev tier m) \<noteq> Inr (Resolved b)"
  using map_evaluateCondition_rejected [of x tier ev e] assms
  by (cases "Promise_all (projr (fst (map_evaluateCondition ev tier)))")
     (auto simp: evaluateConditions_def split: prod.splits sum.splits)

lemma evaluateConditions_event:
  assumes "a \<in> set (snd (evaluateConditions ev tier m))"
  shows "\<exists>x \<in> set tier. a \<in> set (snd (ev x))"
  using assms map_evaluateCondition_event [of a ev tier]
  by (auto simp: evaluateConditions_def split: prod.splits sum.splits)

text \<open>Once a cursor is rejected it stays rejected, and nothing more is started.\<close>

lemma foldl_run_set_Rejected:
  "foldl (run_set ev op m) (Rejected e, t) tiers = (Rejected e, t)"
  by (induction tiers) (simp_all add: run_set_def)

text \<open>A value that settles the aggregate: true under \<open>any\<close>, false under \<open>all\<close>.\<close>

definition determinative :: "operator \<Rightarrow> bool \<Rightarrow> bool" where
  "determinative op b = (case op of OpAny \<Rightarrow> b | OpAll \<Rightarrow> \<not> b)"

lemma foldl_run_set_determinative:
  assumes "determinative op d"
  shows "foldl (run_set ev op m) (Resolved (Some d), t) tiers = (Resolved (Some d), t)"
  using assms
  by (induction tiers) (auto simp: run_set_def determinative_def split: operator.splits)

lemma run_set_undetermined:
  assumes "v = None \<or> (\<exists>b. v = Some b \<and> \<not> determinative op b)"
  shows "run_set ev op m (Resolved v, t) tier =
           (case evaluateConditions ev tier m of
              (Inl e, t') \<Rightarrow> (Rejected e, t @ t')
            | (Inr p, t') \<Rightarrow> (then_value p Some, t @ t'))"
  using assms by (cases op) (auto simp: run_set_def determinative_def)

lemma run_set_Rejected: "run_set ev op m (Rejected e, t) tier = (Rejected e, t)"
  by (simp add: run_set_def)

lemma run_set_Resolved:
  "run_set ev op m (Resolved v, t) tier =
     (if op = OpAny \<and> v = Some True then (Resolved (Some True), t)
      else if op = OpAll \<and> v = Some False then (Resolved (Some False), t)
      else (case evaluateConditions ev tier m of
              (Inl e, t') \<Rightarrow> (Rejected e, t @ t')
            | (Inr p, t') \<Rightarrow> (then_value p Some, t @ t')))"
  by (simp add: run_set_def)

lemma run_set_event_rejects:
  assumes members: "\<And>x. x \<in> set tier \<Longrightarrow> a \<in> set (snd (ev x)) \<Longrightarrow> \<exists>e. fst (ev x) = Inr (Rejected e)"
    and inv: "a \<in> set t \<longrightarrow> (\<exists>e. cur = Rejected e)"
    and step: "run_set ev op m (cur, t) tier = (cur', t')"
  shows "a \<in> set t' \<longrightarrow> (\<exists>e. cur' = Rejected e)"
proof (cases cur)
  case (Rejected e)
  then show ?thesis using step by (auto simp: run_set_Rejected)
next
  case (Resolved v)
  then have nt: "a \<notin> set t" using inv by auto
  obtain r t2 where ec: "evaluateConditions ev tier m = (r, t2)"
    by (cases "evaluateConditions ev tier m")
  have step': "(cur', t') =
     (if op = OpAny \<and> v = Some True then (Resolved (Some True), t)
      else if op = OpAll \<and> v = Some False then (Resolved (Some False), t)
      else (case r of Inl e \<Rightarrow> (Rejected e, t @ t2) | Inr p \<Rightarrow> (then_value p Some, t @ t2)))"
  proof -
    have "run_set ev op m (cur, t) tier =
     (if op = OpAny \<and> v = Some True then (Resolved (Some True), t)
      else if op = OpAll \<and> v = Some False then (Resolved (Some False), t)
      else (case r of Inl e \<Rightarrow> (Rejected e, t @ t2) | Inr p \<Rightarrow> (then_value p Some, t @ t2)))"
      unfolding Resolved run_set_Resolved ec by simp
    then show ?thesis using step by simp
  qed
  show ?thesis
  proof (cases "(op = OpAny \<and> v = Some True) \<or> (op = OpAll \<and> v = Some False)")
    case True
    then have "t' = t" using step' by auto
    then show ?thesis using nt by simp
  next
    case undetermined: False
    show ?thesis
    proof (cases r)
      case (Inl e0)
      then have "cur' = Rejected e0" using step' undetermined by auto
      then show ?thesis by simp
    next
      case (Inr p)
      then have eq: "cur' = then_value p Some" "t' = t @ t2" using step' undetermined by auto
      show ?thesis
      proof
        assume "a \<in> set t'"
        then have "a \<in> set (snd (evaluateConditions ev tier m))" using eq nt ec by simp
        then obtain x where x: "x \<in> set tier" "a \<in> set (snd (ev x))"
          using evaluateConditions_event [of a ev tier m] by auto
        then obtain e where "fst (ev x) = Inr (Rejected e)" using members by blast
        then have "fst (evaluateConditions ev tier m) \<noteq> Inr (Resolved b)" for b
          using evaluateConditions_rejected [of x tier ev e m b] x(1) by simp
        then have "p \<noteq> Resolved b" for b using ec Inr by simp
        then obtain e1 where "p = Rejected e1" by (cases p) auto
        then show "\<exists>e. cur' = Rejected e" using eq by simp
      qed
    qed
  qed
qed

lemma foldl_run_set_event_rejects:
  assumes members: "\<And>tier x. tier \<in> set tiers \<Longrightarrow> x \<in> set tier \<Longrightarrow> a \<in> set (snd (ev x))
                       \<Longrightarrow> \<exists>e. fst (ev x) = Inr (Rejected e)"
    and inv: "a \<in> set t \<longrightarrow> (\<exists>e. cur = Rejected e)"
  shows "a \<in> set (snd (foldl (run_set ev op m) (cur, t) tiers))
         \<longrightarrow> (\<exists>e. fst (foldl (run_set ev op m) (cur, t) tiers) = Rejected e)"
  using assms
proof (induction tiers arbitrary: cur t)
  case Nil
  then show ?case by simp
next
  case (Cons tier tiers)
  obtain cur' t' where step: "run_set ev op m (cur, t) tier = (cur', t')"
    by (cases "run_set ev op m (cur, t) tier")
  have here: "\<exists>e. fst (ev x) = Inr (Rejected e)" if "x \<in> set tier" "a \<in> set (snd (ev x))" for x
    using Cons.prems(1) [of tier x] that by simp
  have later: "\<exists>e. fst (ev x) = Inr (Rejected e)"
    if "tier' \<in> set tiers" "x \<in> set tier'" "a \<in> set (snd (ev x))" for tier' x
    using Cons.prems(1) [of tier' x] that by simp
  have inv': "a \<in> set t' \<longrightarrow> (\<exists>e. cur' = Rejected e)"
    using here Cons.prems(2) step by (rule run_set_event_rejects)
  have "a \<in> set (snd (foldl (run_set ev op m) (cur', t') tiers))
         \<longrightarrow> (\<exists>e. fst (foldl (run_set ev op m) (cur', t') tiers) = Rejected e)"
    using later inv' by (rule Cons.IH)
  then show ?case using step by simp
qed

lemma prioritizeAndRun_event_rejects:
  assumes members: "\<And>x. x \<in> set cs \<Longrightarrow> a \<in> set (snd (ev x)) \<Longrightarrow> \<exists>e. fst (ev x) = Inr (Rejected e)"
    and a: "a \<in> set (snd (prioritizeAndRun ev eng cs op))"
  shows "\<exists>e. fst (prioritizeAndRun ev eng cs op) = Rejected e"
proof (cases "cs = []")
  case True
  then show ?thesis using a by (simp add: prioritizeAndRun_def)
next
  case False
  let ?m = "if op = OpAll then list_all else list_ex"
  let ?run = "foldl (run_set ev op ?m) (Resolved None, []) (prioritizeConditions eng cs)"
  have tiers: "\<exists>e. fst (ev x) = Inr (Rejected e)"
    if "tier \<in> set (prioritizeConditions eng cs)" "x \<in> set tier" "a \<in> set (snd (ev x))" for tier x
    using members [of x] tier_members [OF that(1,2)] that(3) by simp
  have start: "a \<in> set [] \<longrightarrow> (\<exists>e. Resolved None = Rejected e)" by simp
  have run: "prioritizeAndRun ev eng cs op = ?run"
    using False by (simp add: prioritizeAndRun_def)
  have "a \<in> set (snd ?run) \<longrightarrow> (\<exists>e. fst ?run = Rejected e)"
    using tiers start by (rule foldl_run_set_event_rejects)
  then show ?thesis using a run by simp
qed

text \<open>The one failure that \<open>evaluateCondition\<close> may swallow.\<close>

definition permitted :: "engine option \<Rightarrow> error \<Rightarrow> bool" where
  "permitted eng err =
     (case eng of Some engine \<Rightarrow> allowUndefinedFacts engine \<and> code err = Some ''UNDEFINED_FACT''
      | None \<Rightarrow> False)"

lemma evaluateCondition_rejection:
  assumes "Evaluate c \<in> set (snd (evaluateCondition almanac eng x))"
    and "almanac c = Rejected err" and "\<not> permitted eng err"
  shows "\<exists>e. fst (evaluateCondition almanac eng x) = Inr (Rejected e)"
  using assms
proof (induction almanac eng x rule: evaluateCondition.induct)
  case (1 almanac eng op subConditions prio)
  let ?ev = "evaluateCondition almanac eng"
  have members: "\<exists>e. fst (?ev x) = Inr (Rejected e)"
    if "x \<in> set subConditions" "Evaluate c \<in> set (snd (?ev x))" for x
    using that "1.IH" [of "Boolean op subConditions prio" x] "1.prems"(2,3)
    by (cases "op = OpAll") auto
  obtain p t where run: "prioritizeAndRun ?ev eng subConditions op = (p, t)"
    by (cases "prioritizeAndRun ?ev eng subConditions op")
  have ops: "(if op = OpAll then allOperation ?ev eng subConditions
              else anyOperation ?ev eng subConditions) = (p, t)"
    using run by (cases op) (simp_all add: allOperation_def anyOperation_def)
  have "Evaluate c \<in> set t"
    using "1.prems"(1) ops by (auto simp: Let_def split: promise.splits)
  then have "\<exists>e. fst (prioritizeAndRun ?ev eng subConditions op) = Rejected e"
    using members run by (intro prioritizeAndRun_event_rejects [where a = "Evaluate c"]) auto
  then show ?case using run ops by (auto simp: Let_def)
next
  case (2 almanac eng f cmp v prio)
  then show ?case
    by (auto simp: permitted_def Let_def split: option.splits promise.splits if_splits)
qed

subsection \<open>Short circuit between the tiers\<close>

text \<open>
  The array method that \<open>prioritizeAndRun\<close> takes for an operator, and the tier of one
  priority among the siblings.
\<close>

definition method_of :: "operator \<Rightarrow> (bool \<Rightarrow> bool) \<Rightarrow> bool list \<Rightarrow> bool" where
  "method_of op = (if op = OpAll then list_all else list_ex)"

definition tier_of :: "engine option \<Rightarrow> 'v condition list \<Rightarrow> int \<Rightarrow> 'v condition list" where
  "tier_of eng cs p = filter (\<lambda>c. condition_priority eng c = p) cs"

lemma foldl_run_set_undetermined:
  assumes "\<forall>tier \<in> set pre. \<exists>b tr. evaluateConditions ev tier m = (Inr (Resolved b), tr) \<and> \<not> determinative op b"
    and "v = None \<or> (\<exists>b. v = Some b \<and> \<not> determinative op b)"
  shows "\<exists>v'. foldl (run_set ev op m) (Resolved v, t) pre
               = (Resolved v', t @ concat (map (\<lambda>tier. snd (evaluateConditions ev tier m)) pre))
             \<and> (v' = None \<or> (\<exists>b. v' = Some b \<and> \<not> determinative op b))"
  using assms
proof (induction pre arbitrary: v t)
  case Nil
  then show ?case by simp
next
  case (Cons tier pre)
  from Cons.prems(1) obtain b tr where ec: "evaluateConditions ev tier m = (Inr (Resolved b), tr)"
    and nd: "\<not> determinative op b" by auto
  have step: "run_set ev op m (Resolved v, t) tier = (Resolved (Some b), t @ tr)"
    using run_set_undetermined [OF Cons.prems(2), of ev m t tier] ec by simp
  have "\<exists>v'. foldl (run_set ev op m) (Resolved (Some b), t @ tr) pre
               = (Resolved v', (t @ tr) @ concat (map (\<lambda>tier. snd (evaluateConditions ev tier m)) pre))
             \<and> (v' = None \<or> (\<exists>b. v' = Some b \<and> \<not> determinative op b))"
    using Cons.prems(1) nd by (intro Cons.IH) auto
  then show ?case using step ec by simp
qed

lemma prioritizeAndRun_short_circuit:
  assumes tiers: "prioritizeConditions eng cs = pre @ tier # post"
    and pre: "\<forall>t \<in> set pre. \<exists>b tr. evaluateConditions ev t (method_of op) = (Inr (Resolved b), tr)
                \<and> \<not> determinative op b"
    and tier: "evaluateConditions ev tier (method_of op) = (Inr (Resolved d), tr)"
    and d: "determinative op d"
  shows "prioritizeAndRun ev eng cs op
           = (Resolved (Some d),
              concat (map (\<lambda>t. snd (evaluateConditions ev t (method_of op))) (pre @ [tier])))"
proof -
  let ?m = "method_of op"
  have ne: "cs \<noteq> []"
    using tiers by (auto simp: prioritizeConditions_eq tier_priorities_def)
  obtain v' where run_pre: "foldl (run_set ev op ?m) (Resolved None, []) pre
       = (Resolved v', [] @ concat (map (\<lambda>t. snd (evaluateConditions ev t ?m)) pre))"
    and v': "v' = None \<or> (\<exists>b. v' = Some b \<and> \<not> determinative op b)"
    using foldl_run_set_undetermined [OF pre, of None "[]"] by auto
  have step: "run_set ev op ?m (Resolved v', concat (map (\<lambda>t. snd (evaluateConditions ev t ?m)) pre)) tier
      = (Resolved (Some d), concat (map (\<lambda>t. snd (evaluateConditions ev t ?m)) pre) @ tr)"
    using run_set_undetermined [OF v', of ev ?m _ tier] tier by simp
  have "foldl (run_set ev op ?m) (Resolved None, []) (pre @ tier # post)
      = (Resolved (Some d), concat (map (\<lambda>t. snd (evaluateConditions ev t ?m)) pre) @ tr)"
    using run_pre step foldl_run_set_determinative [OF d] by simp
  then show ?thesis using ne tiers tier
    by (simp add: prioritizeAndRun_def method_of_def)
qed

lemma sorted_wrt_split:
  assumes "sorted_wrt (>) (higher @ p # lower)"
  shows "(\<forall>q \<in> set higher. p < (q::int)) \<and> (\<forall>q \<in> set lower. q < p)"
  using assms by (auto simp: sorted_wrt_append)

text \<open>
  C1. Under an enclosing operator the tiers of a sibling list are processed in strictly
  descending priority order, and once the aggregate of a tier is determinative for the
  operator (true under \<open>any\<close>, false under \<open>all\<close>) no condition of a lower tier is
  evaluated, no fact of those tiers is resolved, and the determinative value is the final
  aggregate of the sibling list.
\<close>

theorem short_circuit:
  assumes ps: "tier_priorities eng cs = higher @ p # lower"
    and pre: "\<forall>q \<in> set higher. \<exists>b tr.
                evaluateConditions ev (tier_of eng cs q) (method_of op) = (Inr (Resolved b), tr)
                \<and> \<not> determinative op b"
    and tier: "evaluateConditions ev (tier_of eng cs p) (method_of op) = (Inr (Resolved d), tr)"
    and d: "determinative op d"
  shows "prioritizeConditions eng cs = map (tier_of eng cs) (higher @ p # lower)
         \<and> (\<forall>q \<in> set higher. p < q) \<and> (\<forall>q \<in> set lower. q < p)
         \<and> prioritizeAndRun ev eng cs op
             = (Resolved (Some d),
                concat (map (\<lambda>q. snd (evaluateConditions ev (tier_of eng cs q) (method_of op)))
                          (higher @ [p])))
         \<and> (\<forall>a \<in> set (snd (prioritizeAndRun ev eng cs op)).
               \<exists>x \<in> set cs. p \<le> condition_priority eng x \<and> a \<in> set (snd (ev x)))"
proof -
  let ?m = "method_of op"
  have order: "(\<forall>q \<in> set higher. p < q) \<and> (\<forall>q \<in> set lower. q < p)"
    using tier_priorities_descending [of eng cs] unfolding ps by (rule sorted_wrt_split)
  have tiers: "prioritizeConditions eng cs
                 = map (tier_of eng cs) higher @ tier_of eng cs p # map (tier_of eng cs) lower"
    by (simp add: prioritizeConditions_eq ps tier_of_def [abs_def])
  have pre': "\<forall>t \<in> set (map (tier_of eng cs) higher). \<exists>b tr.
                evaluateConditions ev t ?m = (Inr (Resolved b), tr) \<and> \<not> determinative op b"
    using pre by auto
  have run: "prioritizeAndRun ev eng cs op
      = (Resolved (Some d),
         concat (map (\<lambda>q. snd (evaluateConditions ev (tier_of eng cs q) ?m)) (higher @ [p])))"
    using prioritizeAndRun_short_circuit [OF tiers pre' tier d] by (simp add: comp_def)
  have "\<exists>x \<in> set cs. p \<le> condition_priority eng x \<and> a \<in> set (snd (ev x))"
    if "a \<in> set (snd (prioritizeAndRun ev eng cs op))" for a
  proof -
    from that run obtain q where q: "q \<in> set (higher @ [p])"
      and a: "a \<in> set (snd (evaluateConditions ev (tier_of eng cs q) ?m))"
      by auto
    from a obtain x where x: "x \<in> set (tier_of eng cs q)" "a \<in> set (snd (ev x))"
      using evaluateConditions_event [of a ev "tier_of eng cs q" ?m] by auto
    have "p \<le> q" using q order by auto
    then show ?thesis using x by (auto simp: tier_of_def)
  qed
  then show ?thesis using tiers order run by simp
qed

definition engine0 :: engine where
  "engine0 = \<lparr>facts = Map.empty, allowUndefinedFacts = False\<rparr>"

definition leaf :: "string \<Rightarrow> int \<Rightarrow> nat condition" where
  "leaf f p = Leaf f ''equal'' 1 (Some (Number p))"

text \<open>A fact store in which the fact \<open>c\<close> fails the comparison and every other fact passes.\<close>

definition almanac1 :: "nat almanac" where
  "almanac1 x = (if fact x = ''c'' then Resolved (EvaluationResult False 0)
                 else Resolved (EvaluationResult True 1))"

theorem short_circuit_witness:
  "tier_priorities (Some engine0) [leaf ''a'' 3, leaf ''b'' 1, leaf ''c'' 2] = [3] @ 2 # [1]
   \<and> evaluateConditions (evaluateCondition almanac1 (Some engine0))
        (tier_of (Some engine0) [leaf ''a'' 3, leaf ''b'' 1, leaf ''c'' 2] 3) (method_of OpAll)
       = (Inr (Resolved True),
          [Evaluate (leaf ''a'' 3), SetFactResult (leaf ''a'' 3) 1, SetResult (leaf ''a'' 3) True])
   \<and> \<not> determinative OpAll True
   \<and> evaluateConditions (evaluateCondition almanac1 (Some engine0))
        (tier_of (Some engine0) [leaf ''a'' 3, leaf ''b'' 1, leaf ''c'' 2] 2) (method_of OpAll)
       = (Inr (Resolved False),
          [Evaluate (leaf ''c'' 2), SetFactResult (leaf ''c'' 2) 0, SetResult (leaf ''c'' 2) False])
   \<and> determinative OpAll False
   \<and> prioritizeAndRun (evaluateCondition almanac1 (Some engine0)) (Some engine0)
        [leaf ''a'' 3, leaf ''b'' 1, leaf ''c'' 2] OpAll
       = (Resolved (Some False),
          [Evaluate (leaf ''a'' 3), SetFactResult (leaf ''a'' 3) 1, SetResult (leaf ''a'' 3) True,
           Evaluate (leaf ''c'' 2), SetFactResult (leaf ''c'' 2) 0, SetResult (leaf ''c'' 2) False])
   \<and> Evaluate (leaf ''b'' 1)
        \<notin> set (snd (prioritizeAndRun (evaluateCondition almanac1 (Some engine0)) (Some engine0)
                      [leaf ''a'' 3, leaf ''b'' 1, leaf ''c'' 2] OpAll))"
proof -
  let ?cs = "[leaf ''a'' 3, leaf ''b'' 1, leaf ''c'' 2]"
  let ?ev = "evaluateCondition almanac1 (Some engine0)"
  have ps: "tier_priorities (Some engine0) ?cs = [3] @ 2 # [1]"
    by code_simp
  have t3: "evaluateConditions ?ev (tier_of (Some engine0) ?cs 3) (method_of OpAll)
       = (Inr (Resolved True),
          [Evaluate (leaf ''a'' 3), SetFactResult (leaf ''a'' 3) 1, SetResult (leaf ''a'' 3) True])"
    by code_simp
  have t2: "evaluateConditions ?ev (tier_of (Some engine0) ?cs 2) (method_of OpAll)
       = (Inr (Resolved False),
          [Evaluate (leaf ''c'' 2), SetFactResult (leaf ''c'' 2) 0, SetResult (leaf ''c'' 2) False])"
    by code_simp
  have nd: "\<not> determinative OpAll True" and d: "determinative OpAll False"
    by (simp_all add: determinative_def)
  have pre: "\<forall>q \<in> set [3]. \<exists>b tr.
                evaluateConditions ?ev (tier_of (Some engine0) ?cs q) (method_of OpAll) = (Inr (Resolved b), tr)
                \<and> \<not> determinative OpAll b"
    using t3 nd by auto
  from short_circuit [OF ps pre t2 d]
  have run: "prioritizeAndRun ?ev (Some engine0) ?cs OpAll
       = (Resolved (Some False),
          concat (map (\<lambda>q. snd (evaluateConditions ?ev (tier_of (Some engine0) ?cs q) (method_of OpAll)))
                    ([3] @ [2])))"
    by blast
  have run': "prioritizeAndRun ?ev (Some engine0) ?cs OpAll
       = (Resolved (Some False),
          [Evaluate (leaf ''a'' 3), SetFactResult (leaf ''a'' 3) 1, SetResult (leaf ''a'' 3) True,
           Evaluate (leaf ''c'' 2), SetFactResult (leaf ''c'' 2) 0, SetResult (leaf ''c'' 2) False])"
    unfolding run by (simp add: t3 t2)
  have "Evaluate (leaf ''b'' 1) \<notin> set (snd (prioritizeAndRun ?ev (Some engine0) ?cs OpAll))"
    unfolding run' by (simp add: leaf_def)
  with ps t3 nd t2 d run' show ?thesis by blast
qed

subsection \<open>The root of the tree and the listeners\<close>

lemma run_set_not_null: "fst (run_set ev op m cursor tier) \<noteq> Resolved None"
proof (cases cursor)
  case (Pair cur t)
  show ?thesis
  proof (cases cur)
    case (Rejected e)
    then show ?thesis using Pair by (simp add: run_set_Rejected)
  next
    case (Resolved v)
    obtain r t2 where ec: "evaluateConditions ev tier m = (r, t2)"
      by (cases "evaluateConditions ev tier m")
    have "then_value p Some \<noteq> Resolved None" for p :: "bool promise"
      by (cases p) simp_all
    then show ?thesis using Pair Resolved ec
      by (cases r) (simp_all add: run_set_Resolved)
  qed
qed

lemma prioritizeConditions_nonempty:
  assumes "cs \<noteq> []"
  shows "prioritizeConditions eng cs \<noteq> []"
proof -
  have "set (tier_priorities eng cs) \<noteq> {}"
    using assms by (simp add: set_tier_priorities)
  then show ?thesis by (auto simp: prioritizeConditions_eq)
qed

lemma prioritizeAndRun_not_null: "fst (prioritizeAndRun ev eng cs op) \<noteq> Resolved None"
proof (cases "cs = []")
  case True
  then show ?thesis by (simp add: prioritizeAndRun_def)
next
  case False
  then obtain tiers tier where "prioritizeConditions eng cs = tiers @ [tier]"
    using prioritizeConditions_nonempty [of cs eng] by (metis rev_exhaust)
  then show ?thesis using False
    by (simp add: prioritizeAndRun_def run_set_not_null)
qed

text \<open>\<open>evaluate\<close> on a rule whose root is a boolean node.\<close>

lemma evaluate_Boolean:
  assumes "rule_conditions this = Some (Boolean op subConditions prio)"
    and "prioritizeAndRun (evaluateCondition almanac (rule_engine this)) (rule_engine this)
           subConditions op = (p, t)"
  shows "evaluate almanac this =
     (case p of
        Rejected e \<Rightarrow> \<lparr>returned = Inr (Rejected e), notified = [], trace = t\<rparr>
      | Resolved res \<Rightarrow>
          \<lparr>returned = Inr (Resolved \<lparr>rr_conditions = Boolean op subConditions prio,
                                     rr_event = rule_event this, rr_priority = rule_priority this,
                                     rr_result = res\<rparr>),
           notified = emit this (if res = Some True then ''success'' else ''failure''),
           trace = t\<rparr>)"
  using assms
  by (cases op; cases p)
     (simp_all add: evaluate_def anyOperation_def allOperation_def processResult_def Let_def)

lemma evaluate_trace:
  assumes "a \<in> set (trace (evaluate almanac this))"
  obtains op subConditions prio where "rule_conditions this = Some (Boolean op subConditions prio)"
    and "a \<in> set (snd (prioritizeAndRun (evaluateCondition almanac (rule_engine this))
                          (rule_engine this) subConditions op))"
proof (cases "rule_conditions this")
  case None
  then show ?thesis using assms by (simp add: evaluate_def)
next
  case (Some c)
  show ?thesis
  proof (cases c)
    case (Leaf f cmp v prio)
    then show ?thesis using assms Some by (simp add: evaluate_def)
  next
    case (Boolean op subConditions prio)
    obtain p t where run: "prioritizeAndRun (evaluateCondition almanac (rule_engine this))
        (rule_engine this) subConditions op = (p, t)"
      by (cases "prioritizeAndRun (evaluateCondition almanac (rule_engine this))
        (rule_engine this) subConditions op")
    have "a \<in> set t"
      using assms evaluate_Boolean [of this op subConditions prio almanac p t] Some Boolean run
      by (cases p) simp_all
    then show ?thesis using that [of op subConditions prio] Some Boolean run by simp
  qed
qed

lemma evaluate_rejection:
  assumes "Evaluate c \<in> set (trace (evaluate almanac this))"
    and "almanac c = Rejected err" and "\<not> permitted (rule_engine this) err"
  shows "(\<exists>e. returned (evaluate almanac this) = Inr (Rejected e)) \<and> notified (evaluate almanac this) = []"
proof -
  let ?eng = "rule_engine this"
  let ?ev = "evaluateCondition almanac ?eng"
  from assms(1) obtain op subConditions prio
    where root: "rule_conditions this = Some (Boolean op subConditions prio)"
      and ev: "Evaluate c \<in> set (snd (prioritizeAndRun ?ev ?eng subConditions op))"
    by (rule evaluate_trace)
  have members: "\<exists>e. fst (?ev x) = Inr (Rejected e)"
    if "x \<in> set subConditions" "Evaluate c \<in> set (snd (?ev x))" for x
    using that(2) assms(2,3) by (rule evaluateCondition_rejection)
  from members ev obtain e where "fst (prioritizeAndRun ?ev ?eng subConditions op) = Rejected e"
    using prioritizeAndRun_event_rejects [of subConditions "Evaluate c" ?ev ?eng op] by blast
  then obtain t where "prioritizeAndRun ?ev ?eng subConditions op = (Rejected e, t)"
    by (cases "prioritizeAndRun ?ev ?eng subConditions op") simp
  then show ?thesis using evaluate_Boolean [OF root, of almanac "Rejected e" t] by simp
qed

text \<open>The result that the caller of \<open>evaluate\<close> receives, if any.\<close>

definition delivered :: "error + 'a promise \<Rightarrow> 'a option" where
  "delivered r = (case r of Inr (Resolved x) \<Rightarrow> Some x | _ \<Rightarrow> None)"

lemma evaluate_no_conditions:
  "rule_conditions this = None \<Longrightarrow> delivered (returned (evaluate almanac this)) = None \<and> notified (evaluate almanac this) = []"
  by (simp add: evaluate_def delivered_def)

lemma evaluate_Leaf:
  "rule_conditions this = Some (Leaf f cmp v prio) \<Longrightarrow> delivered (returned (evaluate almanac this)) = None \<and> notified (evaluate almanac this) = []"
  by (simp add: evaluate_def delivered_def)


lemma evaluate_notified:
  "(delivered (returned (evaluate almanac this)) = None \<longrightarrow> notified (evaluate almanac this) = [])
   \<and> (delivered (returned (evaluate almanac this)) = Some rr \<longrightarrow>
        (\<exists>b. rr_result rr = Some b
             \<and> notified (evaluate almanac this) = emit this (if b then ''success'' else ''failure'')))"
proof (cases "rule_conditions this")
  case None
  then show ?thesis using evaluate_no_conditions [of this almanac] by simp
next
  case (Some c)
  show ?thesis
  proof (cases c)
    case (Leaf f cmp v prio)
    then show ?thesis using Some evaluate_Leaf [of this f cmp v prio almanac] by simp
  next
    case (Boolean op subConditions prio)
    obtain p t where run: "prioritizeAndRun (evaluateCondition almanac (rule_engine this))
        (rule_engine this) subConditions op = (p, t)"
      by (cases "prioritizeAndRun (evaluateCondition almanac (rule_engine this))
        (rule_engine this) subConditions op")
    have root: "rule_conditions this = Some (Boolean op subConditions prio)"
      using Some Boolean by simp
    note E = evaluate_Boolean [OF root run]
    show ?thesis
    proof (cases p)
      case (Rejected e)
      then show ?thesis using E by (simp add: delivered_def)
    next
      case (Resolved res)
      have "res \<noteq> None"
        using prioritizeAndRun_not_null [of "evaluateCondition almanac (rule_engine this)"
            "rule_engine this" subConditions op] run Resolved by simp
      then obtain b where b: "res = Some b" by auto
      have ret: "returned (evaluate almanac this) =
          Inr (Resolved \<lparr>rr_conditions = Boolean op subConditions prio,
                         rr_event = rule_event this, rr_priority = rule_priority this,
                         rr_result = Some b\<rparr>)"
        and no: "notified (evaluate almanac this) = emit this (if b then ''success'' else ''failure'')"
        using E Resolved b by simp_all
      have none: "delivered (returned (evaluate almanac this)) \<noteq> None"
        by (simp add: ret delivered_def)
      have some: "rr_result rr = Some b" if "delivered (returned (evaluate almanac this)) = Some rr"
        using that by (auto simp: ret delivered_def)
      show ?thesis using none some no by blast
    qed
  qed
qed

subsection \<open>Undefined facts\<close>

lemma map_evaluateCondition_fst_cong:
  assumes "\<And>x. x \<in> set tier \<Longrightarrow> fst (ev x) = fst (ev' x)"
  shows "fst (map_evaluateCondition ev tier) = fst (map_evaluateCondition ev' tier)"
  using assms
proof (induction tier)
  case Nil
  show ?case by simp
next
  case (Cons c cs)
  obtain r t where c: "ev c = (r, t)" by (cases "ev c")
  obtain t' where c': "ev' c = (r, t')" using Cons.prems [of c] c by (cases "ev' c") simp
  obtain rs ts where cs: "map_evaluateCondition ev cs = (rs, ts)"
    by (cases "map_evaluateCondition ev cs")
  obtain ts' where cs': "map_evaluateCondition ev' cs = (rs, ts')"
    using Cons.IH Cons.prems cs by (cases "map_evaluateCondition ev' cs") simp
  show ?case using c c' cs cs' by (cases r; cases rs) simp_all
qed

lemma evaluateConditions_fst_cong:
  assumes "\<And>x. x \<in> set tier \<Longrightarrow> fst (ev x) = fst (ev' x)"
  shows "fst (evaluateConditions ev tier m) = fst (evaluateConditions ev' tier m)"
proof -
  obtain rs ts where a: "map_evaluateCondition ev tier = (rs, ts)"
    by (cases "map_evaluateCondition ev tier")
  obtain ts' where b: "map_evaluateCondition ev' tier = (rs, ts')"
    using map_evaluateCondition_fst_cong [of tier ev ev'] assms a
    by (cases "map_evaluateCondition ev' tier") simp
  show ?thesis using a b by (cases rs) (simp_all add: evaluateConditions_def)
qed

lemma run_set_fst_cong:
  assumes "\<And>x. x \<in> set tier \<Longrightarrow> fst (ev x) = fst (ev' x)" and "fst cursor = fst cursor'"
  shows "fst (run_set ev op m cursor tier) = fst (run_set ev' op m cursor' tier)"
proof -
  obtain cur t where c: "cursor = (cur, t)" by (cases cursor)
  obtain t' where c': "cursor' = (cur, t')" using assms(2) c by (cases cursor') simp
  obtain r t2 where a: "evaluateConditions ev tier m = (r, t2)"
    by (cases "evaluateConditions ev tier m")
  obtain t2' where b: "evaluateConditions ev' tier m = (r, t2')"
    using evaluateConditions_fst_cong [of tier ev ev' m] assms(1) a
    by (cases "evaluateConditions ev' tier m") simp
  show ?thesis
  proof (cases cur)
    case (Rejected e)
    then show ?thesis using c c' by (simp add: run_set_Rejected)
  next
    case (Resolved v)
    then show ?thesis using c c' a b by (cases r) (simp_all add: run_set_Resolved)
  qed
qed

lemma foldl_run_set_fst_cong:
  assumes "\<And>tier x. tier \<in> set tiers \<Longrightarrow> x \<in> set tier \<Longrightarrow> fst (ev x) = fst (ev' x)"
    and "fst cursor = fst cursor'"
  shows "fst (foldl (run_set ev op m) cursor tiers) = fst (foldl (run_set ev' op m) cursor' tiers)"
  using assms
proof (induction tiers arbitrary: cursor cursor')
  case Nil
  then show ?case by simp
next
  case (Cons tier tiers)
  have here: "fst (ev x) = fst (ev' x)" if "x \<in> set tier" for x
    using Cons.prems(1) [of tier x] that by simp
  have later: "fst (ev x) = fst (ev' x)" if "tier' \<in> set tiers" "x \<in> set tier'" for tier' x
    using Cons.prems(1) [of tier' x] that by simp
  have "fst (run_set ev op m cursor tier) = fst (run_set ev' op m cursor' tier)"
    using here Cons.prems(2) by (rule run_set_fst_cong)
  with later have "fst (foldl (run_set ev op m) (run_set ev op m cursor tier) tiers)
      = fst (foldl (run_set ev' op m) (run_set ev' op m cursor' tier) tiers)"
    by (rule Cons.IH)
  then show ?case by simp
qed

lemma prioritizeAndRun_fst_cong:
  assumes "\<And>x. x \<in> set cs \<Longrightarrow> fst (ev x) = fst (ev' x)"
  shows "fst (prioritizeAndRun ev eng cs op) = fst (prioritizeAndRun ev' eng cs op)"
proof -
  have tiers: "fst (ev x) = fst (ev' x)"
    if "tier \<in> set (prioritizeConditions eng cs)" "x \<in> set tier" for tier x
    using assms [of x] tier_members [OF that] by simp
  have "fst (foldl (run_set ev op m) (Resolved None, []) (prioritizeConditions eng cs))
      = fst (foldl (run_set ev' op m) (Resolved None, []) (prioritizeConditions eng cs))" for m
    using tiers
    by (intro foldl_run_set_fst_cong [of "prioritizeConditions eng cs" ev ev']) simp_all
  then show ?thesis by (simp add: prioritizeAndRun_def)
qed

text \<open>
  With the flag set, an evaluation in which the resolution of a leaf fails with
  \<open>UNDEFINED_FACT\<close> settles as the evaluation in which that leaf evaluates to false.
\<close>

lemma evaluateCondition_Boolean:
  assumes "prioritizeAndRun (evaluateCondition almanac eng) eng subConditions op = (p, t)"
  shows "evaluateCondition almanac eng (Boolean op subConditions prio) =
     (case p of
        Resolved v \<Rightarrow> (Inr (Resolved (v = Some True)),
                       t @ [SetResult (Boolean op subConditions prio) (v = Some True)])
      | Rejected e \<Rightarrow> (Inr (Rejected e), t))"
  using assms by (cases op; cases p) (simp_all add: allOperation_def anyOperation_def Let_def)

lemma evaluateCondition_tolerant:
  assumes "almanac c = Rejected err" and "code err = Some ''UNDEFINED_FACT''"
    and "allowUndefinedFacts engine"
    and "almanac' c = Resolved (EvaluationResult False w)"
    and "\<And>x. x \<noteq> c \<Longrightarrow> almanac' x = almanac x"
  shows "fst (evaluateCondition almanac (Some engine) x)
         = fst (evaluateCondition almanac' (Some engine) x)"
proof (induction x)
  case (Leaf f cmp v prio)
  show ?case
  proof (cases "c = Leaf f cmp v prio")
    case True
    show ?thesis using assms(1-4) unfolding True by (simp add: Let_def)
  next
    case False
    then show ?thesis using assms(5) [of "Leaf f cmp v prio"] by (simp add: Let_def)
  qed
next
  case (Boolean op subConditions prio)
  let ?ev = "evaluateCondition almanac (Some engine)"
  let ?ev' = "evaluateCondition almanac' (Some engine)"
  have "fst (prioritizeAndRun ?ev (Some engine) subConditions op)
        = fst (prioritizeAndRun ?ev' (Some engine) subConditions op)"
    using Boolean by (intro prioritizeAndRun_fst_cong) simp
  then obtain p t t' where run: "prioritizeAndRun ?ev (Some engine) subConditions op = (p, t)"
    and run': "prioritizeAndRun ?ev' (Some engine) subConditions op = (p, t')"
    by (cases "prioritizeAndRun ?ev (Some engine) subConditions op";
        cases "prioritizeAndRun ?ev' (Some engine) subConditions op") simp
  show ?case
    unfolding evaluateCondition_Boolean [of almanac, OF run] evaluateCondition_Boolean [of almanac', OF run']
    by (cases p) simp_all
qed

lemma evaluate_tolerant:
  assumes "almanac c = Rejected err" and "code err = Some ''UNDEFINED_FACT''"
    and "allowUndefinedFacts engine" and "rule_engine this = Some engine"
    and "almanac' c = Resolved (EvaluationResult False w)"
    and "\<And>x. x \<noteq> c \<Longrightarrow> almanac' x = almanac x"
  shows "returned (evaluate almanac this) = returned (evaluate almanac' this)
         \<and> notified (evaluate almanac this) = notified (evaluate almanac' this)"
proof (cases "rule_conditions this")
  case None
  then show ?thesis by (simp add: evaluate_def)
next
  case (Some root)
  show ?thesis
  proof (cases root)
    case (Leaf f cmp v prio)
    then show ?thesis using Some by (simp add: evaluate_def)
  next
    case (Boolean op subConditions prio)
    let ?ev = "evaluateCondition almanac (Some engine)"
    let ?ev' = "evaluateCondition almanac' (Some engine)"
    have root: "rule_conditions this = Some (Boolean op subConditions prio)"
      using Some Boolean by simp
    have "fst (prioritizeAndRun ?ev (Some engine) subConditions op)
        = fst (prioritizeAndRun ?ev' (Some engine) subConditions op)"
      using evaluateCondition_tolerant [of almanac c err engine almanac' w] assms(1,2,3,5,6)
      by (intro prioritizeAndRun_fst_cong) simp
    then obtain p t t' where run: "prioritizeAndRun ?ev (Some engine) subConditions op = (p, t)"
      and run': "prioritizeAndRun ?ev' (Some engine) subConditions op = (p, t')"
      by (cases "prioritizeAndRun ?ev (Some engine) subConditions op";
          cases "prioritizeAndRun ?ev' (Some engine) subConditions op") simp
    show ?thesis
      using evaluate_Boolean [OF root, of almanac p t] evaluate_Boolean [OF root, of almanac' p t']
        run run' assms(4)
      by (cases p) simp_all
  qed
qed

text \<open>
  The fields \<open>result\<close> and \<open>factResult\<close> of the nodes, as a store that the
  assignments of a trace update. A node stands for itself: equal nodes share their fields.
\<close>

record 'v annotation =
  result :: "bool option"
  factResult :: "'v option"

fun write_event ::
  "'v event \<Rightarrow> ('v condition \<Rightarrow> 'v annotation) \<Rightarrow> 'v condition \<Rightarrow> 'v annotation" where
  "write_event (Evaluate c) st = st"
| "write_event (SetFactResult c v) st = st(c := (st c)\<lparr>factResult := Some v\<rparr>)"
| "write_event (SetResult c b) st = st(c := (st c)\<lparr>result := Some b\<rparr>)"

definition annotations_after ::
  "'v event list \<Rightarrow> ('v condition \<Rightarrow> 'v annotation) \<Rightarrow> 'v condition \<Rightarrow> 'v annotation" where
  "annotations_after t st = foldl (\<lambda>s e. write_event e s) st t"

definition unannotated :: "'v condition \<Rightarrow> 'v annotation" where
  "unannotated c = \<lparr>result = None, factResult = None\<rparr>"

text \<open>
  An engine that allows undefined facts, a fact store that knows the fact \<open>age\<close> and
  one that does not.
\<close>

definition engine_tolerant :: engine where
  "engine_tolerant = \<lparr>facts = Map.empty, allowUndefinedFacts = True\<rparr>"

definition undefined_fact :: error where
  "undefined_fact = Error (Some ''UNDEFINED_FACT'') ''Undefined fact: age''"

definition almanac_of_age :: "nat almanac" where
  "almanac_of_age x = (if fact x = ''age'' then Resolved (EvaluationResult True 21)
                       else Resolved (EvaluationResult True 1))"

definition almanac_without_age :: "nat almanac" where
  "almanac_without_age x = (if fact x = ''age'' then Rejected undefined_fact
                            else Resolved (EvaluationResult True 1))"

text \<open>
  C2. For a leaf whose fact resolution fails with the error code \<open>UNDEFINED_FACT\<close>,
  under an engine that allows undefined facts, the error is swallowed and the leaf
  contributes false; its \<open>result\<close> annotation ought to become \<open>false\<close>. It does not:
  the callback that assigns \<open>condition.result\<close> is skipped on this path, which the
  path of a resolved leaf and the path of a boolean node are not. The trace holds no
  assignment to the leaf, whose \<open>result\<close> is still unset on a fresh tree, and still
  \<open>true\<close> after an earlier evaluation in which the fact was known.
\<close>

theorem undefined_fact_result_not_written:
  "evaluateCondition almanac_without_age (Some engine_tolerant) (leaf ''age'' 1)
     = (Inr (Resolved False), [Evaluate (leaf ''age'' 1)])
   \<and> SetResult (leaf ''age'' 1) False
       \<notin> set (snd (evaluateCondition almanac_without_age (Some engine_tolerant) (leaf ''age'' 1)))
   \<and> result (annotations_after
               (snd (evaluateCondition almanac_without_age (Some engine_tolerant) (leaf ''age'' 1)))
               unannotated (leaf ''age'' 1)) = None
   \<and> result (annotations_after
               (snd (evaluateCondition almanac_without_age (Some engine_tolerant) (leaf ''age'' 1)))
               (annotations_after
                  (snd (evaluateCondition almanac_of_age (Some engine_tolerant) (leaf ''age'' 1)))
                  unannotated)
               (leaf ''age'' 1)) = Some True"
  by (simp add: leaf_def almanac_without_age_def almanac_of_age_def engine_tolerant_def
      undefined_fact_def annotations_after_def unannotated_def Let_def)

text \<open>
  The rest of the behaviour on an undefined fact. If the engine allows undefined facts,
  the leaf contributes false, and every enclosing evaluation settles as it would had the
  leaf evaluated to false. If the flag is not set, the same error rejects the leaf, and
  an evaluation that evaluates the leaf is rejected as a whole, with no listener notified.
\<close>

lemma undefined_fact_tolerance:
  assumes "almanac c = Rejected err" and "code err = Some ''UNDEFINED_FACT''"
    and "c = Leaf f cmp v prio"
  shows "(allowUndefinedFacts engine \<longrightarrow>
            evaluateCondition almanac (Some engine) c = (Inr (Resolved False), [Evaluate c])
            \<and> annotations_after (snd (evaluateCondition almanac (Some engine) c)) st = st
            \<and> fst (evaluateCondition almanac (Some engine) x)
                = fst (evaluateCondition (almanac(c := Resolved (EvaluationResult False w)))
                         (Some engine) x)
            \<and> (rule_engine this = Some engine \<longrightarrow>
                  returned (evaluate almanac this)
                    = returned (evaluate (almanac(c := Resolved (EvaluationResult False w))) this)
                  \<and> notified (evaluate almanac this)
                    = notified (evaluate (almanac(c := Resolved (EvaluationResult False w))) this)))
         \<and> (\<not> allowUndefinedFacts engine \<longrightarrow>
              evaluateCondition almanac (Some engine) c = (Inr (Rejected err), [Evaluate c])
              \<and> (rule_engine this = Some engine \<and> Evaluate c \<in> set (trace (evaluate almanac this)) \<longrightarrow>
                    (\<exists>e. returned (evaluate almanac this) = Inr (Rejected e))
                    \<and> notified (evaluate almanac this) = []))"
proof (cases "allowUndefinedFacts engine")
  case True
  let ?almanac' = "almanac(c := Resolved (EvaluationResult False w))"
  have leaf: "evaluateCondition almanac (Some engine) c = (Inr (Resolved False), [Evaluate c])"
    using assms True by (simp add: Let_def)
  have ann: "annotations_after (snd (evaluateCondition almanac (Some engine) c)) st = st"
    unfolding leaf by (simp add: annotations_after_def)
  have same: "?almanac' c = Resolved (EvaluationResult False w)"
    and other: "\<And>y. y \<noteq> c \<Longrightarrow> ?almanac' y = almanac y"
    by simp_all
  have tree: "fst (evaluateCondition almanac (Some engine) x)
                = fst (evaluateCondition ?almanac' (Some engine) x)"
    using assms(1,2) True same other by (rule evaluateCondition_tolerant)
  have root: "returned (evaluate almanac this) = returned (evaluate ?almanac' this)
                \<and> notified (evaluate almanac this) = notified (evaluate ?almanac' this)"
    if "rule_engine this = Some engine"
    using assms(1,2) True that same other by (rule evaluate_tolerant)
  show ?thesis using True leaf ann tree root by blast
next
  case False
  have leaf: "evaluateCondition almanac (Some engine) c = (Inr (Rejected err), [Evaluate c])"
    using assms False by (simp add: Let_def)
  have root: "(\<exists>e. returned (evaluate almanac this) = Inr (Rejected e))
                \<and> notified (evaluate almanac this) = []"
    if "rule_engine this = Some engine" "Evaluate c \<in> set (trace (evaluate almanac this))"
    using that(2) assms(1)
  proof (rule evaluate_rejection)
    show "\<not> permitted (rule_engine this) err"
      using that(1) False by (simp add: permitted_def)
  qed
  show ?thesis using False leaf root by blast
qed

definition rule_of_age :: "engine \<Rightarrow> (nat, nat) rule" where
  "rule_of_age e =
     \<lparr>rule_priority = Some (Number 1),
      rule_conditions = Some (Boolean OpAll [leaf ''age'' 1, leaf ''zip'' 1] None),
      rule_event = Some \<lparr>type = ''eligible'', params = None\<rparr>,
      rule_engine = Some e,
      listeners = [(''success'', 1), (''failure'', 2)]\<rparr>"

lemma examples_without_age:
  "almanac_without_age (leaf ''age'' 1) = Rejected undefined_fact"
  "code undefined_fact = Some ''UNDEFINED_FACT''"
  "leaf ''age'' 1 = Leaf ''age'' ''equal'' 1 (Some (Number 1))"
  "allowUndefinedFacts engine_tolerant"
  "\<not> allowUndefinedFacts engine0"
  "rule_engine (rule_of_age e) = Some e"
  "Evaluate (leaf ''age'' 1) \<in> set (trace (evaluate almanac_without_age (rule_of_age engine0)))"
  "notified (evaluate (almanac_without_age(leaf ''age'' 1 := Resolved (EvaluationResult False 0)))
               (rule_of_age engine_tolerant)) = [(''failure'', 2)]"
  by (simp_all add: almanac_without_age_def undefined_fact_def leaf_def engine_tolerant_def
      engine0_def rule_of_age_def evaluate_def allOperation_def prioritizeAndRun_def
      prioritizeConditions_def condition_priority_def sets_push_def sets_get_def
      sort_descending_def run_set_def evaluateConditions_def Let_def processResult_def emit_def)

lemma undefined_fact_tolerance_example:
  "almanac_without_age (leaf ''age'' 1) = Rejected undefined_fact
   \<and> code undefined_fact = Some ''UNDEFINED_FACT''
   \<and> allowUndefinedFacts engine_tolerant
   \<and> evaluateCondition almanac_without_age (Some engine_tolerant) (leaf ''age'' 1)
       = (Inr (Resolved False), [Evaluate (leaf ''age'' 1)])
   \<and> notified (evaluate almanac_without_age (rule_of_age engine_tolerant)) = [(''failure'', 2)]
   \<and> \<not> allowUndefinedFacts engine0
   \<and> evaluateCondition almanac_without_age (Some engine0) (leaf ''age'' 1)
       = (Inr (Rejected undefined_fact), [Evaluate (leaf ''age'' 1)])
   \<and> Evaluate (leaf ''age'' 1) \<in> set (trace (evaluate almanac_without_age (rule_of_age engine0)))
   \<and> (\<exists>e. returned (evaluate almanac_without_age (rule_of_age engine0)) = Inr (Rejected e))
   \<and> notified (evaluate almanac_without_age (rule_of_age engine0)) = []"
proof -
  note E = examples_without_age
  note T1 = undefined_fact_tolerance [where almanac = almanac_without_age and c = "leaf ''age'' 1"
      and err = undefined_fact and engine = engine_tolerant and w = 0
      and this = "rule_of_age engine_tolerant", OF E(1) E(2) E(3)]
  note T0 = undefined_fact_tolerance [where almanac = almanac_without_age and c = "leaf ''age'' 1"
      and err = undefined_fact and engine = engine0
      and this = "rule_of_age engine0", OF E(1) E(2) E(3)]
  have on: "evaluateCondition almanac_without_age (Some engine_tolerant) (leaf ''age'' 1)
       = (Inr (Resolved False), [Evaluate (leaf ''age'' 1)])"
    using T1 E(4) by blast
  have "notified (evaluate almanac_without_age (rule_of_age engine_tolerant))
      = notified (evaluate (almanac_without_age(leaf ''age'' 1 := Resolved (EvaluationResult False 0)))
                   (rule_of_age engine_tolerant))"
    using T1 E(4) E(6) by blast
  then have failure: "notified (evaluate almanac_without_age (rule_of_age engine_tolerant)) = [(''failure'', 2)]"
    using E(8) by simp
  have off: "evaluateCondition almanac_without_age (Some engine0) (leaf ''age'' 1)
       = (Inr (Rejected undefined_fact), [Evaluate (leaf ''age'' 1)])"
    using T0 E(5) by blast
  have rejected: "(\<exists>e. returned (evaluate almanac_without_age (rule_of_age engine0)) = Inr (Rejected e))
      \<and> notified (evaluate almanac_without_age (rule_of_age engine0)) = []"
    using T0 E(5) E(6) E(7) by blast
  from E(1,2,4,5,7) on failure off rejected show ?thesis by blast
qed

text \<open>
  C3. In every evaluation in which the evaluation of a condition fails with an error
  other than the permitted \<open>UNDEFINED_FACT\<close> case, the promise that \<open>evaluate\<close>
  returns is rejected, no result is delivered to the caller, and neither the success nor
  the failure listeners are notified. Listeners are notified once, and only where a
  result with a boolean \<open>result\<close> is delivered.
\<close>

theorem rejection_unwinds:
  "(Evaluate c \<in> set (trace (evaluate almanac this)) \<and> almanac c = Rejected err
      \<and> \<not> permitted (rule_engine this) err \<longrightarrow>
        (\<exists>e. returned (evaluate almanac this) = Inr (Rejected e))
        \<and> delivered (returned (evaluate almanac this)) = None
        \<and> notified (evaluate almanac this) = [])
   \<and> (delivered (returned (evaluate almanac this)) = None \<longrightarrow> notified (evaluate almanac this) = [])
   \<and> (delivered (returned (evaluate almanac this)) = Some rr \<longrightarrow>
        (\<exists>b. rr_result rr = Some b
             \<and> notified (evaluate almanac this) = emit this (if b then ''success'' else ''failure'')))"
proof -
  have "(\<exists>e. returned (evaluate almanac this) = Inr (Rejected e))
        \<and> delivered (returned (evaluate almanac this)) = None
        \<and> notified (evaluate almanac this) = []"
    if "Evaluate c \<in> set (trace (evaluate almanac this))" "almanac c = Rejected err"
      "\<not> permitted (rule_engine this) err"
  proof -
    from that have r: "(\<exists>e. returned (evaluate almanac this) = Inr (Rejected e))
        \<and> notified (evaluate almanac this) = []"
      by (rule evaluate_rejection)
    then have "delivered (returned (evaluate almanac this)) = None"
      by (auto simp: delivered_def)
    with r show ?thesis by simp
  qed
  then show ?thesis using evaluate_notified [of almanac this rr] by blast
qed

definition timeout :: error where
  "timeout = Error (Some ''TIMEOUT'') ''The fact store timed out''"

definition almanac_timeout :: "nat almanac" where
  "almanac_timeout x = (if fact x = ''age'' then Rejected timeout
                        else Resolved (EvaluationResult True 1))"

lemma examples_timeout:
  "Evaluate (leaf ''age'' 1) \<in> set (trace (evaluate almanac_timeout (rule_of_age engine_tolerant)))"
  "almanac_timeout (leaf ''age'' 1) = Rejected timeout"
  "\<not> permitted (rule_engine (rule_of_age engine_tolerant)) timeout"
  "returned (evaluate almanac_timeout (rule_of_age engine_tolerant)) = Inr (Rejected timeout)"
  "delivered (returned (evaluate almanac_of_age (rule_of_age engine_tolerant)))
     = Some \<lparr>rr_conditions = Boolean OpAll [leaf ''age'' 1, leaf ''zip'' 1] None,
             rr_event = Some \<lparr>type = ''eligible'', params = None\<rparr>,
             rr_priority = Some (Number 1), rr_result = Some True\<rparr>"
  "emit (rule_of_age engine_tolerant) ''success'' = [(''success'', 1)]"
  by (simp_all add: almanac_timeout_def almanac_of_age_def timeout_def leaf_def engine_tolerant_def
      permitted_def delivered_def
      rule_of_age_def evaluate_def allOperation_def prioritizeAndRun_def
      prioritizeConditions_def condition_priority_def sets_push_def sets_get_def
      sort_descending_def run_set_def evaluateConditions_def Let_def processResult_def emit_def)

theorem rejection_unwinds_witness:
  "Evaluate (leaf ''age'' 1) \<in> set (trace (evaluate almanac_timeout (rule_of_age engine_tolerant)))
   \<and> almanac_timeout (leaf ''age'' 1) = Rejected timeout
   \<and> \<not> permitted (rule_engine (rule_of_age engine_tolerant)) timeout
   \<and> returned (evaluate almanac_timeout (rule_of_age engine_tolerant)) = Inr (Rejected timeout)
   \<and> delivered (returned (evaluate almanac_timeout (rule_of_age engine_tolerant))) = None
   \<and> notified (evaluate almanac_timeout (rule_of_age engine_tolerant)) = []
   \<and> delivered (returned (evaluate almanac_of_age (rule_of_age engine_tolerant)))
       = Some \<lparr>rr_conditions = Boolean OpAll [leaf ''age'' 1, leaf ''zip'' 1] None,
               rr_event = Some \<lparr>type = ''eligible'', params = None\<rparr>,
               rr_priority = Some (Number 1), rr_result = Some True\<rparr>
   \<and> notified (evaluate almanac_of_age (rule_of_age engine_tolerant)) = [(''success'', 1)]"
proof -
  note E = examples_timeout
  have "delivered (returned (evaluate almanac_timeout (rule_of_age engine_tolerant))) = None
        \<and> notified (evaluate almanac_timeout (rule_of_age engine_tolerant)) = []"
    using rejection_unwinds [of "leaf ''age'' 1" almanac_timeout "rule_of_age engine_tolerant" timeout]
      E(1) E(2) E(3) by blast
  moreover have "\<exists>b. rr_result \<lparr>rr_conditions = Boolean OpAll [leaf ''age'' 1, leaf ''zip'' 1] None,
             rr_event = Some \<lparr>type = ''eligible'', params = None\<rparr>,
             rr_priority = Some (Number 1), rr_result = Some True\<rparr> = Some b
        \<and> notified (evaluate almanac_of_age (rule_of_age engine_tolerant))
            = emit (rule_of_age engine_tolerant) (if b then ''success'' else ''failure'')"
    using rejection_unwinds [where almanac = almanac_of_age and this = "rule_of_age engine_tolerant"]
      E(5) by blast
  then have "notified (evaluate almanac_of_age (rule_of_age engine_tolerant)) = [(''success'', 1)]"
    using E(6) by auto
  ultimately show ?thesis using E(1-5) by simp
qed

section \<open>Properties of the priority tiers\<close>

text \<open>
  The resolution of the priority as the specification words it: the explicit priority of
  the node if it is present, else the priority of its fact in the engine, else 1.
\<close>

definition claimed_priority :: "engine option \<Rightarrow> 'v condition \<Rightarrow> int" where
  "claimed_priority eng c =
     (case priority c of
        Some (Number p) \<Rightarrow> p
      | _ \<Rightarrow> (case (case eng of Some e \<Rightarrow> getFact e (fact_of c) | None \<Rightarrow> None) of
                Some f \<Rightarrow> (case fact_priority f of Some (Number p) \<Rightarrow> p | _ \<Rightarrow> 1)
              | None \<Rightarrow> 1))"

definition claimed_tiers :: "engine option \<Rightarrow> 'v condition list \<Rightarrow> 'v condition list list" where
  "claimed_tiers eng cs =
     map (\<lambda>p. filter (\<lambda>c. claimed_priority eng c = p) cs)
         (rev (sort (remdups (map (claimed_priority eng) cs))))"

text \<open>
  An explicit priority of \<open>0\<close> is falsy, so the code goes on to the fact and the default:
  the leaf \<open>a\<close> below joins the tier of priority 1, where the wording above puts it into
  a tier of its own, after \<open>b\<close>. A fact priority of \<open>0\<close> is falsy as well: the leaf
  \<open>zip\<close> joins the tier of priority 1.
\<close>

definition fact_priority_zero :: engine where
  "fact_priority_zero = \<lparr>facts = [''zip'' \<mapsto> \<lparr>fact_priority = Some (Number 0)\<rparr>],
                         allowUndefinedFacts = False\<rparr>"

theorem explicit_priority_zero:
  "prioritizeConditions None [Leaf ''a'' ''equal'' (0::nat) (Some (Number 0)), Leaf ''b'' ''equal'' 0 None]
     = [[Leaf ''a'' ''equal'' 0 (Some (Number 0)), Leaf ''b'' ''equal'' 0 None]]
   \<and> claimed_tiers None [Leaf ''a'' ''equal'' (0::nat) (Some (Number 0)), Leaf ''b'' ''equal'' 0 None]
     = [[Leaf ''b'' ''equal'' 0 None], [Leaf ''a'' ''equal'' 0 (Some (Number 0))]]
   \<and> prioritizeConditions None [Leaf ''a'' ''equal'' (0::nat) (Some (Number 0)), Leaf ''b'' ''equal'' 0 None]
     \<noteq> claimed_tiers None [Leaf ''a'' ''equal'' (0::nat) (Some (Number 0)), Leaf ''b'' ''equal'' 0 None]
   \<and> prioritizeConditions (Some fact_priority_zero)
         [Leaf ''zip'' ''equal'' (0::nat) None, Leaf ''b'' ''equal'' 0 (Some (Number 1))]
     = [[Leaf ''zip'' ''equal'' 0 None, Leaf ''b'' ''equal'' 0 (Some (Number 1))]]
   \<and> claimed_tiers (Some fact_priority_zero)
         [Leaf ''zip'' ''equal'' (0::nat) None, Leaf ''b'' ''equal'' 0 (Some (Number 1))]
     = [[Leaf ''b'' ''equal'' 0 (Some (Number 1))], [Leaf ''zip'' ''equal'' 0 None]]"
  by code_simp

text \<open>
  C4 (as the code has it). For every sibling condition list, \<open>prioritizeConditions\<close>
  takes as the priority of a node its own explicit priority if that is truthy (present,
  not \<open>0\<close>, not \<open>NaN\<close>), else the priority of the node's fact in the engine if the rule
  has an engine, the fact is registered and its priority is truthy (a boolean node has no
  fact), else 1; it groups the nodes by this priority and returns the groups by
  descending priority, the nodes of a group in their input order.
\<close>

theorem prioritizeConditions_tiers:
  "prioritizeConditions eng cs
     = map (\<lambda>p. filter (\<lambda>c. condition_priority eng c = p) cs) (tier_priorities eng cs)
   \<and> sorted_wrt (>) (tier_priorities eng cs)
   \<and> set (tier_priorities eng cs) = condition_priority eng ` set cs
   \<and> (truthy (priority c) = Some p \<longrightarrow> condition_priority eng c = p)
   \<and> (truthy (priority c) = None \<and> eng = Some e \<and> fact_of c = Some f \<and> facts e f = Some fe
        \<and> truthy (fact_priority fe) = Some p \<longrightarrow> condition_priority eng c = p)
   \<and> (truthy (priority c) = None \<and> eng = Some e \<and> fact_of c = Some f \<and> facts e f = Some fe
        \<and> truthy (fact_priority fe) = None \<longrightarrow> condition_priority eng c = 1)
   \<and> (truthy (priority c) = None \<and> eng = Some e \<and> fact_of c = Some f \<and> facts e f = None
        \<longrightarrow> condition_priority eng c = 1)
   \<and> (truthy (priority c) = None \<and> eng = None \<longrightarrow> condition_priority eng c = 1)
   \<and> (truthy (priority c) = None \<and> isBooleanOperator c \<longrightarrow> condition_priority eng c = 1)"
proof -
  have bool: "fact_of c = None" if "isBooleanOperator c"
    using that by (cases c) simp_all
  have "truthy (priority c) = None \<and> isBooleanOperator c \<longrightarrow> condition_priority eng c = 1"
    by (auto simp: condition_priority_def getFact_def bool split: option.splits)
  moreover have "truthy (priority c) = Some p \<longrightarrow> condition_priority eng c = p"
    by (simp add: condition_priority_def)
  ultimately show ?thesis
    by (simp add: prioritizeConditions_eq tier_priorities_descending set_tier_priorities
        condition_priority_def getFact_def)
qed

definition engine1 :: engine where
  "engine1 = \<lparr>facts = [''age'' \<mapsto> \<lparr>fact_priority = Some (Number 5)\<rparr>,
                        ''zip'' \<mapsto> \<lparr>fact_priority = Some (Number 0)\<rparr>],
              allowUndefinedFacts = False\<rparr>"

definition siblings1 :: "nat condition list" where
  "siblings1 = [Leaf ''a'' ''equal'' 0 (Some (Number 3)),
                Leaf ''age'' ''equal'' 0 None,
                Leaf ''b'' ''equal'' 0 (Some (Number 1)),
                Leaf ''zip'' ''equal'' 0 None,
                Boolean OpAny [] None,
                Leaf ''c'' ''equal'' 0 (Some (Number 2)),
                Leaf ''d'' ''equal'' 0 (Some (Number 3)),
                Leaf ''nowhere'' ''equal'' 0 (Some NaN)]"


theorem prioritizeConditions_tiers_witness:
  "prioritizeConditions (Some engine1) siblings1
     = [[Leaf ''age'' ''equal'' 0 None],
        [Leaf ''a'' ''equal'' 0 (Some (Number 3)), Leaf ''d'' ''equal'' 0 (Some (Number 3))],
        [Leaf ''c'' ''equal'' 0 (Some (Number 2))],
        [Leaf ''b'' ''equal'' 0 (Some (Number 1)), Leaf ''zip'' ''equal'' 0 None,
         Boolean OpAny [] None, Leaf ''nowhere'' ''equal'' 0 (Some NaN)]]
   \<and> sorted_wrt (>) (tier_priorities (Some engine1) siblings1)
   \<and> condition_priority (Some engine1) (Leaf ''a'' ''equal'' (0::nat) (Some (Number 3))) = 3
   \<and> condition_priority (Some engine1) (Leaf ''age'' ''equal'' (0::nat) None) = 5
   \<and> condition_priority (Some engine1) (Leaf ''zip'' ''equal'' (0::nat) None) = 1
   \<and> condition_priority (Some engine1) (Leaf ''nowhere'' ''equal'' (0::nat) (Some NaN)) = 1
   \<and> condition_priority None (Leaf ''age'' ''equal'' (0::nat) None) = 1
   \<and> condition_priority (Some engine1) (Boolean OpAny ([] :: nat condition list) None) = 1"
proof -
  note T = prioritizeConditions_tiers
  have "prioritizeConditions (Some engine1) siblings1
          = map (\<lambda>p. filter (\<lambda>c. condition_priority (Some engine1) c = p) siblings1)
              (tier_priorities (Some engine1) siblings1)"
    using T [where eng = "Some engine1" and cs = siblings1] by blast
  also have "\<dots> = [[Leaf ''age'' ''equal'' 0 None],
        [Leaf ''a'' ''equal'' 0 (Some (Number 3)), Leaf ''d'' ''equal'' 0 (Some (Number 3))],
        [Leaf ''c'' ''equal'' 0 (Some (Number 2))],
        [Leaf ''b'' ''equal'' 0 (Some (Number 1)), Leaf ''zip'' ''equal'' 0 None,
         Boolean OpAny [] None, Leaf ''nowhere'' ''equal'' 0 (Some NaN)]]"
    by code_simp
  finally have tiers: "prioritizeConditions (Some engine1) siblings1
     = [[Leaf ''age'' ''equal'' 0 None],
        [Leaf ''a'' ''equal'' 0 (Some (Number 3)), Leaf ''d'' ''equal'' 0 (Some (Number 3))],
        [Leaf ''c'' ''equal'' 0 (Some (Number 2))],
        [Leaf ''b'' ''equal'' 0 (Some (Number 1)), Leaf ''zip'' ''equal'' 0 None,
         Boolean OpAny [] None, Leaf ''nowhere'' ''equal'' 0 (Some NaN)]]" .
  have desc: "sorted_wrt (>) (tier_priorities (Some engine1) siblings1)"
    using T [where eng = "Some engine1" and cs = siblings1] by blast
  have a: "condition_priority (Some engine1) (Leaf ''a'' ''equal'' (0::nat) (Some (Number 3))) = 3"
    using T [where eng = "Some engine1" and c = "Leaf ''a'' ''equal'' (0::nat) (Some (Number 3))" and p = 3,
        THEN conjunct2, THEN conjunct2, THEN conjunct2]
    by simp
  have age: "condition_priority (Some engine1) (Leaf ''age'' ''equal'' (0::nat) None) = 5"
    using T [where eng = "Some engine1" and c = "Leaf ''age'' ''equal'' (0::nat) None" and p = 5
        and e = engine1 and f = "''age''" and fe = "\<lparr>fact_priority = Some (Number 5)\<rparr>",
        THEN conjunct2, THEN conjunct2, THEN conjunct2]
    by (simp add: engine1_def)
  have zip: "condition_priority (Some engine1) (Leaf ''zip'' ''equal'' (0::nat) None) = 1"
    using T [where eng = "Some engine1" and c = "Leaf ''zip'' ''equal'' (0::nat) None"
        and e = engine1 and f = "''zip''" and fe = "\<lparr>fact_priority = Some (Number 0)\<rparr>",
        THEN conjunct2, THEN conjunct2, THEN conjunct2]
    by (simp add: engine1_def)
  have nowhere: "condition_priority (Some engine1) (Leaf ''nowhere'' ''equal'' (0::nat) (Some NaN)) = 1"
    using T [where eng = "Some engine1" and c = "Leaf ''nowhere'' ''equal'' (0::nat) (Some NaN)"
        and e = engine1 and f = "''nowhere''",
        THEN conjunct2, THEN conjunct2, THEN conjunct2]
    by (simp add: engine1_def)
  have none: "condition_priority None (Leaf ''age'' ''equal'' (0::nat) None) = 1"
    using T [where eng = None and c = "Leaf ''age'' ''equal'' (0::nat) None",
        THEN conjunct2, THEN conjunct2, THEN conjunct2]
    by simp
  have boolean: "condition_priority (Some engine1) (Boolean OpAny ([] :: nat condition list) None) = 1"
    using T [where eng = "Some engine1" and c = "Boolean OpAny ([] :: nat condition list) None",
        THEN conjunct2, THEN conjunct2, THEN conjunct2]
    by simp
  from tiers desc a age zip nowhere none boolean show ?thesis by blast
qed

section \<open>Properties of construction and serialization\<close>

subsection \<open>Digits\<close>

text \<open>Parsing the decimal digits of a number gives the number back.\<close>

lemma of_char_digit_char:
  assumes "0 \<le> d" and "d < 10"
  shows "(of_char (digit_char d) :: int) = 48 + d"
  using assms by (simp add: digit_char_def)

lemma is_digit_digit_char:
  assumes "0 \<le> d" and "d < 10"
  shows "is_digit (digit_char d)"
  using assms by (simp add: is_digit_def of_char_digit_char)

lemma is_digit_not_special:
  assumes "is_digit c"
  shows "\<not> is_whitespace c" and "c \<noteq> CHR ''-''" and "c \<noteq> CHR ''+''"
  using assms by (auto simp: is_digit_def is_whitespace_def)

lemma digits_value_snoc: "digits_value (ds @ [c]) = 10 * digits_value ds + (of_char c - 48)"
  by (simp add: digits_value_def)

lemma digits_of_digits:
  assumes "0 \<le> n"
  shows "digits_of n \<noteq> [] \<and> (\<forall>c \<in> set (digits_of n). is_digit c) \<and> digits_value (digits_of n) = n"
  using assms
proof (induction n rule: digits_of.induct)
  case (1 n)
  show ?case
  proof (cases "n < 10")
    case True
    then have "digits_of n = [digit_char n]" by (simp add: digits_of.simps)
    then show ?thesis using True "1.prems"
      by (simp add: is_digit_digit_char digits_value_def of_char_digit_char)
  next
    case False
    then have unfold: "digits_of n = digits_of (n div 10) @ [digit_char (n mod 10)]"
      by (subst digits_of.simps) simp
    have IH: "digits_of (n div 10) \<noteq> [] \<and> (\<forall>c \<in> set (digits_of (n div 10)). is_digit c)
              \<and> digits_value (digits_of (n div 10)) = n div 10"
      using "1.IH" False "1.prems" by simp
    have last: "is_digit (digit_char (n mod 10))" "(of_char (digit_char (n mod 10)) :: int) = 48 + n mod 10"
      by (simp_all add: is_digit_digit_char of_char_digit_char)
    show ?thesis
      unfolding unfold using IH last by (auto simp: digits_value_snoc)
  qed
qed

lemma parseInt_digits_of:
  assumes "0 \<le> n"
  shows "parseInt (digits_of n) = Number n"
proof -
  from digits_of_digits [OF assms] obtain c cs where ds: "digits_of n = c # cs"
    and all: "\<forall>x \<in> set (c # cs). is_digit x" and v: "digits_value (c # cs) = n"
    by (cases "digits_of n") auto
  have c: "is_digit c" using all by simp
  have drop: "dropWhile is_whitespace (c # cs) = c # cs"
    using is_digit_not_special(1) [OF c] by simp
  have take: "takeWhile is_digit (c # cs) = c # cs"
    using all by (simp add: takeWhile_eq_all_conv)
  show ?thesis
    unfolding parseInt_def ds drop Let_def
    using is_digit_not_special(2,3) [OF c] take v by simp
qed

lemma parseInt_ToString_Number:
  assumes "0 \<le> n" and "n < 10 ^ 21"
  shows "parseInt (ToString (Num (Number n))) = Number n"
  using assms parseInt_digits_of [of n] by (simp add: Number_toString_def)

subsection \<open>\<open>setConditions\<close>\<close>


text \<open>
  An instance of the parameters, for the examples: a definition is given by its own keys
  and by the node that the constructor builds from it.
\<close>

fun keys_of :: "'v condition \<Rightarrow> string list" where
  "keys_of (Boolean OpAll _ _) = [''all'']"
| "keys_of (Boolean OpAny _ _) = [''any'']"
| "keys_of (Leaf _ _ _ _) = [''fact'', ''operator'', ''value'']"

definition keys_class :: "(string list \<times> 'v condition, 'v) condition_class" where
  "keys_class = \<lparr>hasOwnProperty = (\<lambda>d k. k \<in> set (fst d)),
                 Condition_new = (\<lambda>d. Inr (snd d)),
                 Condition_toJSON = (\<lambda>c. (keys_of c, c))\<rparr>"



subsection \<open>The order of the constructor\<close>

fun registers_listener :: "('d, 'l) call \<Rightarrow> bool" where
  "registers_listener (On _ _) = True"
| "registers_listener _ = False"

fun processes_conditions :: "('d, 'l) call \<Rightarrow> bool" where
  "processes_conditions (SetConditions _) = True"
| "processes_conditions _ = False"

fun processes_priority_or_event :: "('d, 'l) call \<Rightarrow> bool" where
  "processes_priority_or_event (SetPriority _) = True"
| "processes_priority_or_event (SetEvent _) = True"
| "processes_priority_or_event _ = False"

text \<open>\<open>all_before P Q xs\<close>: in \<open>xs\<close>, no element with \<open>P\<close> comes after an element with \<open>Q\<close>.\<close>

fun all_before :: "('a \<Rightarrow> bool) \<Rightarrow> ('a \<Rightarrow> bool) \<Rightarrow> 'a list \<Rightarrow> bool" where
  "all_before P Q [] = True"
| "all_before P Q (x # xs) = ((if Q x then \<not> list_ex P xs else True) \<and> all_before P Q xs)"

text \<open>The listeners that a definition asks for.\<close>

definition registered :: "('d, 'l) options option \<Rightarrow> (string \<times> 'l) list" where
  "registered scopedOptions =
     (case scopedOptions of
        None \<Rightarrow> []
      | Some opts \<Rightarrow>
          (case onSuccess opts of Some f \<Rightarrow> [(''success'', f)] | None \<Rightarrow> [])
          @ (case onFailure opts of Some f \<Rightarrow> [(''failure'', f)] | None \<Rightarrow> []))"

fun listener_of :: "('d, 'l) call \<Rightarrow> (string \<times> 'l) list" where
  "listener_of (On name f) = [(name, f)]"
| "listener_of _ = []"

lemma perform_listeners:
  assumes "perform cls c this = (ReturnsThis, this')"
  shows "listeners this' = listeners this @ listener_of c"
  using assms
  by (cases c)
     (auto simp: setConditions_def setPriority_def setEvent_def on_def Let_def
           split: if_splits sum.splits option.splits)

lemma perform_all_listeners:
  assumes "perform_all cls cs this = Inr this'"
  shows "listeners this' = listeners this @ concat (map listener_of cs)"
  using assms
proof (induction cs arbitrary: this)
  case Nil
  then show ?case by simp
next
  case (Cons c cs)
  obtain r this1 where p: "perform cls c this = (r, this1)" by (cases "perform cls c this")
  show ?case
  proof (cases r)
    case ReturnsThis
    then have "perform_all cls cs this1 = Inr this'" using Cons.prems p by simp
    then have "listeners this' = listeners this1 @ concat (map listener_of cs)" by (rule Cons.IH)
    then show ?thesis using perform_listeners [of cls c this this1] p ReturnsThis by simp
  next
    case (Throws e)
    then show ?thesis using Cons.prems p by simp
  qed
qed

lemma constructor_calls_listeners:
  "concat (map listener_of (constructor_calls scopedOptions)) = registered scopedOptions"
  by (auto simp: constructor_calls_def registered_def split: option.splits)

text \<open>
  C8 (as the code has it). When a rule is constructed from a definition (an object or
  serialized text) that holds \<open>onSuccess\<close> or \<open>onFailure\<close>, the conditions of the
  definition are set first, then the callables are registered as success and failure
  listeners, and only then the priority and the event are processed; the rule that is
  built holds exactly these listeners.
\<close>

theorem constructor_order:
  "all_before processes_conditions registers_listener (constructor_calls scopedOptions)
   \<and> all_before registers_listener processes_priority_or_event (constructor_calls scopedOptions)
   \<and> (Rule_new cls (FromOptions scopedOptions) = Inr this
        \<or> Rule_new cls (FromString (JsonText (Inr scopedOptions))) = Inr this
      \<longrightarrow> listeners this = registered scopedOptions)"
proof -
  have order: "all_before processes_conditions registers_listener (constructor_calls scopedOptions)
      \<and> all_before registers_listener processes_priority_or_event (constructor_calls scopedOptions)"
    by (auto simp: constructor_calls_def split: option.splits)
  have "listeners this = registered scopedOptions"
    if "perform_all cls (constructor_calls scopedOptions) new_object = Inr this"
    using perform_all_listeners [OF that] constructor_calls_listeners [of scopedOptions]
    by (simp add: new_object_def)
  then show ?thesis using order by (auto simp: Rule_new_def)
qed

subsection \<open>Serialization\<close>

text \<open>JSON data goes through \<open>JSON.stringify\<close> and \<open>JSON.parse\<close> unchanged.\<close>

lemma JSON_of_json_data: "json_data v \<Longrightarrow> JSON_of v = Some v"
proof (induction v)
  case (JArray xs)
  then have "\<forall>x\<in>set xs. JSON_of x = Some x" by (simp add: list_all_iff)
  then have "map (\<lambda>x. case JSON_of x of None \<Rightarrow> JNull | Some y \<Rightarrow> y) xs = xs"
    by (induction xs) simp_all
  then show ?case by simp
next
  case (JObject kvs)
  then have "\<forall>(k, v)\<in>set kvs. JSON_of v = Some v" by (fastforce simp: list_all_iff)
  then have "concat (map (\<lambda>(k, v). case JSON_of v of None \<Rightarrow> [] | Some y \<Rightarrow> [(k, y)]) kvs) = kvs"
    by (induction kvs) auto
  then show ?case by simp
qed simp_all

text \<open>And only JSON data does.\<close>

lemma length_members:
  "length (concat (map (\<lambda>(k, v). case JSON_of v of None \<Rightarrow> [] | Some y \<Rightarrow> [(k, y)]) kvs)) \<le> length kvs"
  by (induction kvs) (auto split: option.splits)

lemma members_fixed:
  assumes "concat (map (\<lambda>(k, v). case JSON_of v of None \<Rightarrow> [] | Some y \<Rightarrow> [(k, y)]) kvs) = kvs"
  shows "\<forall>(k, v)\<in>set kvs. JSON_of v = Some v"
  using assms
proof (induction kvs)
  case Nil
  then show ?case by simp
next
  case (Cons kv kvs)
  obtain k v where kv: "kv = (k, v)" by (cases kv)
  show ?case
  proof (cases "JSON_of v")
    case None
    then have "concat (map (\<lambda>(k, v). case JSON_of v of None \<Rightarrow> [] | Some y \<Rightarrow> [(k, y)]) kvs) = kv # kvs"
      using Cons.prems kv by simp
    then have "length (kv # kvs) \<le> length kvs" using length_members [of kvs] by simp
    then show ?thesis by simp
  next
    case (Some y)
    then have "y = v" and "concat (map (\<lambda>(k, v). case JSON_of v of None \<Rightarrow> [] | Some y \<Rightarrow> [(k, y)]) kvs) = kvs"
      using Cons.prems kv by simp_all
    then show ?thesis using Cons.IH Some kv by simp
  qed
qed

lemma elements_fixed:
  assumes "map (\<lambda>x. case JSON_of x of None \<Rightarrow> JNull | Some y \<Rightarrow> y) xs = xs"
    and "x \<in> set xs"
  shows "JSON_of x = Some x"
proof -
  have "(case JSON_of x of None \<Rightarrow> JNull | Some y \<Rightarrow> y) = x"
    using assms by (induction xs) auto
  then show ?thesis by (cases x; cases "JSON_of x") auto
qed

lemma json_data_JSON_of: "JSON_of v = Some v \<Longrightarrow> json_data v"
proof (induction v)
  case (JArray xs)
  then have "map (\<lambda>x. case JSON_of x of None \<Rightarrow> JNull | Some y \<Rightarrow> y) xs = xs" by simp
  then have "\<forall>x\<in>set xs. JSON_of x = Some x" using elements_fixed by blast
  then show ?case using JArray.IH by (simp add: list_all_iff)
next
  case (JObject kvs)
  then have "concat (map (\<lambda>(k, v). case JSON_of v of None \<Rightarrow> [] | Some y \<Rightarrow> [(k, y)]) kvs) = kvs"
    by simp
  then have "\<forall>(k, v)\<in>set kvs. JSON_of v = Some v" by (rule members_fixed)
  then show ?case using JObject.IH by (fastforce simp: list_all_iff)
qed simp_all

lemma json_data_priority_member:
  "p \<noteq> Some NaN \<Longrightarrow> list_all (\<lambda>(k, v). json_data v) (priority_member p)"
  by (cases p rule: priority_member.cases) simp_all

text \<open>The definition that \<open>toJSON\<close> renders of such a tree is JSON data.\<close>

lemma json_data_definition:
  "integer_priorities c \<Longrightarrow> json_leaves c \<Longrightarrow> json_data (Condition_definition c)"
proof (induction c)
  case (Leaf f cmp v p)
  then show ?case using json_data_priority_member [of p] by simp
next
  case (Boolean op cs p)
  then have "list_all json_data (map Condition_definition cs)"
    by (simp add: list_all_iff)
  then show ?case using json_data_priority_member [of p] Boolean.prems by simp
qed

lemma js_truthy_definition: "js_truthy (Condition_definition c)"
  by (cases c) simp_all

lemma collect_map:
  "(\<And>x. x \<in> set xs \<Longrightarrow> f (g x) = Inr x) \<Longrightarrow> collect (map f (map g xs)) = Inr xs"
  by (induction xs) simp_all

lemma definition_priority_member:
  "map_of kvs ''priority'' = None \<Longrightarrow> p \<noteq> Some NaN
   \<Longrightarrow> definition_priority (JObject (kvs @ priority_member p)) = p"
  by (cases p rule: priority_member.cases)
     (simp_all add: definition_priority_def property_def map_add_def split: option.splits)

text \<open>The constructor builds a tree again from the definition that \<open>toJSON\<close> renders of it.\<close>

lemma Condition_of_definition:
  "integer_priorities c \<Longrightarrow> Condition_of (Condition_definition c) = Inr c"
proof (induction c)
  case (Leaf f cmp v p)
  have keys: "\<not> has_own (Condition_definition (Leaf f cmp v p)) ''all''"
    "\<not> has_own (Condition_definition (Leaf f cmp v p)) ''any''"
    "has_own (Condition_definition (Leaf f cmp v p)) ''value''"
    by (cases p rule: priority_member.cases; simp add: has_own_def)+
  have "definition_priority (Condition_definition (Leaf f cmp v p)) = p"
    using definition_priority_member
            [of "[(''fact'', JString f), (''operator'', JString cmp), (''value'', v)]" p]
          Leaf.prems
    by simp
  then show ?case using keys
    by (subst Condition_of.simps) (simp add: property_def)
next
  case (Boolean op cs p)
  let ?k = "if op = OpAll then ''all'' else ''any''"
  let ?d = "Condition_definition (Boolean op cs p)"
  have keys: "has_own ?d ''all'' = (op = OpAll)" "has_own ?d ''any'' = (op = OpAny)"
    by (cases p rule: priority_member.cases; cases op; simp add: has_own_def)+
  have prio: "definition_priority ?d = p"
    using definition_priority_member [of "[(?k, JArray (map Condition_definition cs))]" p]
          Boolean.prems
    by simp
  have subs: "property ?d ?k = JArray (map Condition_definition cs)"
    by (simp add: property_def)
  have "collect (map Condition_of (map Condition_definition cs)) = Inr cs"
    using Boolean.IH Boolean.prems by (intro collect_map) (simp add: list_all_iff)
  then show ?case using keys prio subs
    by (subst Condition_of.simps) (cases op; simp)
qed

lemma setConditions_definition:
  assumes "isBooleanOperator c" and "integer_priorities c"
  shows "setConditions Condition_class (Condition_definition c) this
           = (ReturnsThis, this\<lparr>rule_conditions := Some c\<rparr>)"
proof -
  from assms(1) obtain op cs p where c: "c = Boolean op cs p" by (cases c) simp_all
  have "has_own (Condition_definition c) ''all'' \<or> has_own (Condition_definition c) ''any''"
    unfolding c by (cases op) (simp_all add: has_own_def)
  then show ?thesis
    using Condition_of_definition [OF assms(2)]
    by (simp add: setConditions_def Condition_class_def)
qed

lemma setEvent_stored:
  assumes "\<forall>ps. params a = Some ps \<longrightarrow> js_truthy ps \<and> json_data ps"
  shows "setEvent (Some \<lparr>opt_type = Some (type a),
                          opt_params = (case params a of None \<Rightarrow> None | Some ps \<Rightarrow> JSON_of ps)\<rparr>) this
           = (ReturnsThis, this\<lparr>rule_event := Some a\<rparr>)"
  using assms by (cases "params a") (simp_all add: setEvent_def JSON_of_json_data)

lemma setPriority_stored:
  assumes "0 < n" and "n < 10 ^ 21"
  shows "setPriority (Num (Number n)) this = (ReturnsThis, this\<lparr>rule_priority := Some (Number n)\<rparr>)"
  using assms parseInt_ToString_Number [of n] by (simp add: setPriority_def)

text \<open>
  C9 (as the code has it, with the class \<open>Condition\<close> as the spec describes it). For
  every configured rule whose priority is a positive integer below \<open>10^21\<close>, whose event
  holds no payload or a payload that is JSON data, and whose condition tree (if any)
  expects JSON data in its leaves: serializing the rule with \<open>toJSON\<close> and constructing
  a new rule from that text gives a rule with the same condition tree, the same event
  and the same priority. (That the event is there, that its payload is not falsy, that
  the root of the tree is a boolean node and that the explicit priorities of the tree are
  integers is what the constructor and the setters establish: lemmas
  \<open>constructed_rule\<close> and \<open>constructed_tree\<close>.)
\<close>

theorem serialization_round_trip:
  fixes this :: "(js, 'l) rule"
  assumes prio: "rule_priority this = Some (Number n)" "0 < n" "n < 10 ^ 21"
    and event: "rule_event this = Some a"
               "\<forall>ps. params a = Some ps \<longrightarrow> js_truthy ps \<and> json_data ps"
    and tree: "\<forall>c. rule_conditions this = Some c \<longrightarrow>
                 isBooleanOperator c \<and> integer_priorities c \<and> json_leaves c"
  shows "\<exists>this'. Rule_new Condition_class
                   (FromString (as_string (toJSON Condition_class True this))) = Inr this'
           \<and> rule_conditions this' = rule_conditions this
           \<and> rule_event this' = rule_event this
           \<and> rule_priority this' = rule_priority this"
proof -
  let ?event = "\<lparr>opt_type = Some (type a),
                 opt_params = (case params a of None \<Rightarrow> None | Some ps \<Rightarrow> JSON_of ps)\<rparr>"
  let ?opts = "\<lparr>options_conditions =
                   (case rule_conditions this of Some c \<Rightarrow> Some (Condition_definition c) | None \<Rightarrow> None),
                 options_event = Some ?event,
                 options_priority = Num (Number n),
                 onSuccess = (None :: 'l option), onFailure = (None :: 'l option)\<rparr>"
  have through: "JSON_of (Condition_definition c) = Some (Condition_definition c)"
    if "rule_conditions this = Some c" for c
    using that tree by (simp add: json_data_definition JSON_of_json_data)
  have ser: "as_string (toJSON Condition_class True this) = JsonText (Inr (Some ?opts))"
  proof (cases "rule_conditions this")
    case None
    then show ?thesis
      using prio(1) event(1) by (simp add: toJSON_def JSON_stringify_def)
  next
    case (Some c)
    then show ?thesis
      using prio(1) event(1) through [OF Some] js_truthy_definition [of c]
      by (simp add: toJSON_def JSON_stringify_def Condition_class_def)
  qed
  have calls: "constructor_calls (Some ?opts)
      = (case rule_conditions this of Some c \<Rightarrow> [SetConditions (Condition_definition c)] | None \<Rightarrow> [])
        @ [SetPriority (Num (Number n)), SetEvent (Some ?event)]"
    using prio(2) by (simp add: constructor_calls_def split: option.splits)
  have rest: "perform_all Condition_class [SetPriority (Num (Number n)), SetEvent (Some ?event)] that
      = Inr (that\<lparr>rule_priority := Some (Number n), rule_event := Some a\<rparr>)" for that :: "(js, 'l) rule"
    by (simp add: setPriority_stored [OF prio(2,3)] setEvent_stored [OF event(2)])
  show ?thesis
  proof (cases "rule_conditions this")
    case None
    have "Rule_new Condition_class (FromString (as_string (toJSON Condition_class True this)))
        = Inr (new_object\<lparr>rule_priority := Some (Number n), rule_event := Some a\<rparr>)"
      unfolding ser using None calls rest by (simp add: Rule_new_def)
    then show ?thesis using None prio(1) event(1) by (simp add: new_object_def)
  next
    case (Some c)
    then have "setConditions Condition_class (Condition_definition c) that
                 = (ReturnsThis, that\<lparr>rule_conditions := Some c\<rparr>)" for that :: "(js, 'l) rule"
      using tree by (simp add: setConditions_definition)
    then have "Rule_new Condition_class (FromString (as_string (toJSON Condition_class True this)))
        = Inr (new_object\<lparr>rule_conditions := Some c, rule_priority := Some (Number n),
                          rule_event := Some a\<rparr>)"
      unfolding ser using Some calls rest by (simp add: Rule_new_def)
    then show ?thesis using Some prio(1) event(1) by simp
  qed
qed

subsection \<open>What the constructor establishes\<close>

lemma perform_all_append:
  "perform_all cls (xs @ ys) this =
     (case perform_all cls xs this of Inl e \<Rightarrow> Inl e | Inr this' \<Rightarrow> perform_all cls ys this')"
proof (induction xs arbitrary: this)
  case Nil
  show ?case by simp
next
  case (Cons x xs)
  obtain r this1 where p: "perform cls x this = (r, this1)" by (cases "perform cls x this")
  show ?case using p Cons.IH [of this1] by (cases r) simp_all
qed

lemma setPriority_result:
  assumes "setPriority p this = (ReturnsThis, this')"
  shows "rule_priority this' = Some NaN \<or> (\<exists>n. 0 < n \<and> rule_priority this' = Some (Number n))"
proof (cases "parseInt (ToString p)")
  case NaN
  then show ?thesis using assms by (auto simp: setPriority_def)
next
  case (Number n)
  then show ?thesis using assms by (auto simp: setPriority_def split: if_splits)
qed

lemma setEvent_result:
  assumes "setEvent e this = (ReturnsThis, this')"
  shows "rule_priority this' = rule_priority this
         \<and> (\<exists>a. rule_event this' = Some a \<and> (\<forall>ps. params a = Some ps \<longrightarrow> js_truthy ps))"
  using assms by (auto simp: setEvent_def Let_def split: option.splits if_splits)

text \<open>What the constructor leaves in the priority and in the event of every rule it builds.\<close>

lemma constructed_rule:
  assumes "Rule_new cls arg = Inr this"
  shows "(rule_priority this = Some NaN \<or> (\<exists>n. 0 < n \<and> rule_priority this = Some (Number n)))
         \<and> (\<exists>a. rule_event this = Some a \<and> (\<forall>ps. params a = Some ps \<longrightarrow> js_truthy ps))"
proof -
  from assms obtain scopedOptions
    where run: "perform_all cls (constructor_calls scopedOptions) new_object = Inr this"
    by (auto simp: Rule_new_def split: constructor_argument.splits sum.splits)
  obtain pre p e where calls: "constructor_calls scopedOptions = pre @ [SetPriority p, SetEvent e]"
    by (simp add: constructor_calls_def)
  from run obtain this0 where "perform_all cls [SetPriority p, SetEvent e] this0 = Inr this"
    unfolding calls perform_all_append by (auto split: sum.splits)
  then obtain this1 where p: "setPriority p this0 = (ReturnsThis, this1)"
    and e: "setEvent e this1 = (ReturnsThis, this)"
    by (auto split: prod.splits outcome.splits)
  show ?thesis using setPriority_result [OF p] setEvent_result [OF e] by auto
qed

lemma collect_Inr: "collect rs = Inr xs \<Longrightarrow> rs = map Inr xs"
proof (induction rs arbitrary: xs)
  case Nil
  then show ?case by simp
next
  case (Cons r rs)
  then show ?case by (cases r) (auto split: sum.splits)
qed

lemma definition_priority_integer: "definition_priority d \<noteq> Some NaN"
  by (simp add: definition_priority_def split: js.splits)

text \<open>
  The node that the constructor of \<open>Condition\<close> builds: its explicit priorities are
  integers, and it is a boolean node exactly when the definition has one of the two keys.
\<close>

lemma Condition_of_built:
  "Condition_of d = Inr c
   \<Longrightarrow> integer_priorities c \<and> (isBooleanOperator c \<longleftrightarrow> has_own d ''all'' \<or> has_own d ''any'')"
proof (induction d arbitrary: c rule: Condition_of.induct)
  case (1 d)
  show ?case
  proof (cases "has_own d ''all'' \<or> has_own d ''any''")
    case True
    let ?k = "if has_own d ''any'' then ''any'' else ''all''"
    from "1.prems" True obtain ds cs where ds: "property d ?k = JArray ds"
      and cs: "collect (map Condition_of ds) = Inr cs"
      and c: "c = Boolean (if has_own d ''any'' then OpAny else OpAll) cs (definition_priority d)"
      by (subst (asm) Condition_of.simps) (auto simp: Let_def split: js.splits sum.splits)
    have "integer_priorities c'" if "c' \<in> set cs" for c'
    proof -
      have "Inr c' \<in> set (map Condition_of ds)"
        using that collect_Inr [OF cs] by simp
      then obtain x where x: "x \<in> set ds" "Condition_of x = Inr c'" by auto
      show ?thesis using "1.IH" [OF True refl refl ds x] by simp
    qed
    then show ?thesis using c True definition_priority_integer [of d] by (simp add: list_all_iff)
  next
    case False
    then obtain f cmp where "c = Leaf f cmp (property d ''value'') (definition_priority d)"
      using "1.prems"
      by (subst (asm) Condition_of.simps) (auto split: js.splits if_splits)
    then show ?thesis using False definition_priority_integer [of d] by simp
  qed
qed

lemma perform_tree:
  assumes "perform Condition_class call this = (ReturnsThis, this')"
    and "\<forall>c. rule_conditions this = Some c \<longrightarrow> isBooleanOperator c \<and> integer_priorities c"
  shows "\<forall>c. rule_conditions this' = Some c \<longrightarrow> isBooleanOperator c \<and> integer_priorities c"
proof (cases call)
  case (SetConditions d)
  from assms(1) obtain c where keys: "has_own d ''all'' \<or> has_own d ''any''"
    and c: "Condition_of d = Inr c" and this': "this' = this\<lparr>rule_conditions := Some c\<rparr>"
    unfolding SetConditions
    by (auto simp: setConditions_def Condition_class_def split: if_splits sum.splits)
  show ?thesis using Condition_of_built [OF c] keys this' by simp
next
  case (On name f)
  then show ?thesis using assms by (auto simp: on_def)
next
  case (SetPriority p)
  then show ?thesis using assms by (auto simp: setPriority_def Let_def split: if_splits)
next
  case (SetEvent e)
  then show ?thesis using assms by (auto simp: setEvent_def Let_def split: option.splits if_splits)
qed

lemma perform_all_tree:
  assumes "perform_all Condition_class calls this = Inr this'"
    and "\<forall>c. rule_conditions this = Some c \<longrightarrow> isBooleanOperator c \<and> integer_priorities c"
  shows "\<forall>c. rule_conditions this' = Some c \<longrightarrow> isBooleanOperator c \<and> integer_priorities c"
  using assms
proof (induction calls arbitrary: this)
  case Nil
  then show ?case by simp
next
  case (Cons call calls)
  obtain r this1 where p: "perform Condition_class call this = (r, this1)"
    by (cases "perform Condition_class call this")
  show ?case
  proof (cases r)
    case ReturnsThis
    have run: "perform_all Condition_class calls this1 = Inr this'"
      using Cons.prems(1) p ReturnsThis by simp
    have step: "perform Condition_class call this = (ReturnsThis, this1)"
      using p ReturnsThis by simp
    have "\<forall>c. rule_conditions this1 = Some c \<longrightarrow> isBooleanOperator c \<and> integer_priorities c"
      by (rule perform_tree [OF step Cons.prems(2)])
    then show ?thesis by (rule Cons.IH [OF run])
  next
    case (Throws e)
    then show ?thesis using Cons.prems(1) p by simp
  qed
qed

text \<open>
  What the constructor leaves in the condition tree of every rule it builds with the
  class \<open>Condition\<close>.
\<close>

lemma constructed_tree:
  fixes this :: "(js, 'l) rule"
  assumes "Rule_new Condition_class arg = Inr this"
  shows "\<forall>c. rule_conditions this = Some c \<longrightarrow> isBooleanOperator c \<and> integer_priorities c"
proof -
  from assms obtain scopedOptions
    where run: "perform_all Condition_class (constructor_calls scopedOptions) new_object = Inr this"
    by (auto simp: Rule_new_def split: constructor_argument.splits sum.splits)
  have "\<forall>c. rule_conditions (new_object :: (js, 'l) rule) = Some c
          \<longrightarrow> isBooleanOperator c \<and> integer_priorities c"
    by (simp add: new_object_def)
  then show ?thesis by (rule perform_all_tree [OF run])
qed

subsection \<open>Examples of construction\<close>

definition definition1 :: "string list \<times> nat condition" where
  "definition1 = ([''all''], Boolean OpAll [leaf ''age'' 1] None)"

definition options1 :: "(string list \<times> nat condition, nat) options" where
  "options1 = \<lparr>options_conditions = Some definition1,
               options_event = Some \<lparr>opt_type = Some ''eligible'',
                                      opt_params = Some (JObject [(''grade'', JNumber 3)])\<rparr>,
               options_priority = Str ''2'',
               onSuccess = Some 1,
               onFailure = Some 2\<rparr>"

definition rule1 :: "(nat, nat) rule" where
  "rule1 = \<lparr>rule_priority = Some (Number 2),
            rule_conditions = Some (Boolean OpAll [leaf ''age'' 1] None),
            rule_event = Some \<lparr>type = ''eligible'', params = Some (JObject [(''grade'', JNumber 3)])\<rparr>,
            rule_engine = None,
            listeners = [(''success'', 1), (''failure'', 2)]\<rparr>"

lemma parseInt_more:
  "parseInt ''2'' = Number 2"
  "parseInt ''high'' = NaN"
  "parseInt ''1000000000000000000000'' = Number 1000000000000000000000"
  "parseInt (Number_toString (Number 1000000000000000000000)) = Number 1"
  "parseInt (Number_toString (Number 1)) = Number 1"
  by code_simp+

lemmas construction =
  Rule_new_def constructor_calls_def setConditions_def setPriority_def setEvent_def on_def
  new_object_def keys_class_def toJSON_def JSON_stringify_def parseInt_more

lemma Rule_new_options1: "Rule_new keys_class (FromOptions (Some options1)) = Inr rule1"
  by (simp add: construction options1_def rule1_def definition1_def)

text \<open>
  The conditions are processed before the listeners are registered: in the calls of the
  constructor, \<open>setConditions\<close> stands before the two calls of \<open>on\<close>.
\<close>

theorem listeners_after_conditions:
  "constructor_calls (Some options1)
     = [SetConditions definition1, On ''success'' 1, On ''failure'' 2, SetPriority (Str ''2''),
        SetEvent (Some \<lparr>opt_type = Some ''eligible'',
                         opt_params = Some (JObject [(''grade'', JNumber 3)])\<rparr>)]
   \<and> \<not> all_before registers_listener processes_conditions (constructor_calls (Some options1))"
  by code_simp

theorem constructor_order_witness:
  "all_before processes_conditions registers_listener (constructor_calls (Some options1))
   \<and> all_before registers_listener processes_priority_or_event (constructor_calls (Some options1))
   \<and> Rule_new keys_class (FromOptions (Some options1)) = Inr rule1
   \<and> listeners rule1 = [(''success'', 1), (''failure'', 2)]"
proof -
  note T = constructor_order [where scopedOptions = "Some options1" and cls = keys_class and this = rule1]
  have "listeners rule1 = registered (Some options1)"
    using T Rule_new_options1 by blast
  moreover have "registered (Some options1) = [(''success'', 1), (''failure'', 2)]"
    by code_simp
  ultimately show ?thesis using T Rule_new_options1 by simp
qed

subsection \<open>Examples of serialization\<close>

definition tree2 :: "js condition" where
  "tree2 = Boolean OpAll
             [Leaf ''age'' ''greaterThanInclusive'' (JNumber 18) None,
              Boolean OpAny [Leaf ''grade'' ''equal'' (JString ''A'') (Some (Number 3))]
                (Some (Number 2))]
             None"

definition conditions2 :: js where
  "conditions2 =
     JObject [(''all'', JArray
       [JObject [(''fact'', JString ''age''), (''operator'', JString ''greaterThanInclusive''),
                 (''value'', JNumber 18)],
        JObject [(''any'', JArray
                   [JObject [(''fact'', JString ''grade''), (''operator'', JString ''equal''),
                             (''value'', JString ''A''), (''priority'', JNumber 3)]]),
                 (''priority'', JNumber 2)]])]"

text \<open>A leaf that expects \<open>NaN\<close>; what the text makes of it expects \<open>null\<close>.\<close>

definition tree3 :: "js \<Rightarrow> js condition" where
  "tree3 v = Boolean OpAll [Leaf ''age'' ''equal'' v None] None"

definition conditions3 :: "js \<Rightarrow> js" where
  "conditions3 v =
     JObject [(''all'', JArray
       [JObject [(''fact'', JString ''age''), (''operator'', JString ''equal''), (''value'', v)]])]"

definition options_with :: "js \<Rightarrow> prim \<Rightarrow> js option \<Rightarrow> (js, nat) options" where
  "options_with d p ps = \<lparr>options_conditions = Some d,
                          options_event = Some \<lparr>opt_type = Some ''eligible'', opt_params = ps\<rparr>,
                          options_priority = p,
                          onSuccess = None,
                          onFailure = None\<rparr>"

definition rule_with :: "js condition \<Rightarrow> number \<Rightarrow> js option \<Rightarrow> (js, nat) rule" where
  "rule_with c p ps = \<lparr>rule_priority = Some p,
                       rule_conditions = Some c,
                       rule_event = Some \<lparr>type = ''eligible'', params = ps\<rparr>,
                       rule_engine = None,
                       listeners = []\<rparr>"

lemma examples_of_definitions:
  "has_own conditions2 ''all''"
  "Condition_of conditions2 = Inr tree2"
  "Condition_definition tree2 = conditions2"
  "JSON_of conditions2 = Some conditions2"
  "js_truthy conditions2"
  "has_own (conditions3 JNaN) ''all''"
  "Condition_of (conditions3 JNaN) = Inr (tree3 JNaN)"
  "Condition_definition (tree3 JNaN) = conditions3 JNaN"
  "JSON_of (conditions3 JNaN) = Some (conditions3 JNull)"
  "js_truthy (conditions3 JNull)"
  "has_own (conditions3 JNull) ''all''"
  "Condition_of (conditions3 JNull) = Inr (tree3 JNull)"
  by code_simp+

lemma parseInt_two: "parseInt (Number_toString (Number 2)) = Number 2"
  by code_simp

lemmas serialization =
  Rule_new_def constructor_calls_def setConditions_def setPriority_def setEvent_def
  new_object_def Condition_class_def toJSON_def JSON_stringify_def parseInt_more
  options_with_def rule_with_def examples_of_definitions parseInt_two

text \<open>
  A rule built with the priority \<open>'high'\<close> stores \<open>NaN\<close>; its text holds \<open>null\<close>, and
  the rule built from the text has the priority 1. A rule built with the priority
  \<open>'1000000000000000000000'\<close> stores \<open>10^21\<close>; the rule built from its text parses
  \<open>1e+21\<close> and has the priority 1. A rule built with the payload \<open>{x: NaN}\<close> stores
  it; its text holds \<open>{"x": null}\<close>, which is the payload of the rule built from the
  text. A rule built with a leaf that expects \<open>NaN\<close> has, built again from its text, a
  leaf that expects \<open>null\<close>.
\<close>

theorem serialization_not_restored:
  "Rule_new Condition_class (FromOptions (Some (options_with conditions2 (Str ''high'') None)))
     = Inr (rule_with tree2 NaN None)
   \<and> Rule_new Condition_class
        (FromString (as_string (toJSON Condition_class True (rule_with tree2 NaN None))))
       = Inr (rule_with tree2 (Number 1) None)
   \<and> Rule_new Condition_class
        (FromOptions (Some (options_with conditions2 (Str ''1000000000000000000000'') None)))
       = Inr (rule_with tree2 (Number 1000000000000000000000) None)
   \<and> Rule_new Condition_class
        (FromString (as_string (toJSON Condition_class True
           (rule_with tree2 (Number 1000000000000000000000) None))))
       = Inr (rule_with tree2 (Number 1) None)
   \<and> Rule_new Condition_class
        (FromOptions (Some (options_with conditions2 (Str ''2'') (Some (JObject [(''x'', JNaN)])))))
       = Inr (rule_with tree2 (Number 2) (Some (JObject [(''x'', JNaN)])))
   \<and> Rule_new Condition_class
        (FromString (as_string (toJSON Condition_class True
           (rule_with tree2 (Number 2) (Some (JObject [(''x'', JNaN)]))))))
       = Inr (rule_with tree2 (Number 2) (Some (JObject [(''x'', JNull)])))
   \<and> Rule_new Condition_class
        (FromOptions (Some (options_with (conditions3 JNaN) (Str ''2'') None)))
       = Inr (rule_with (tree3 JNaN) (Number 2) None)
   \<and> Rule_new Condition_class
        (FromString (as_string (toJSON Condition_class True (rule_with (tree3 JNaN) (Number 2) None))))
       = Inr (rule_with (tree3 JNull) (Number 2) None)"
  by (simp add: serialization)

definition options2 :: "(js, nat) options" where
  "options2 = \<lparr>options_conditions = Some conditions2,
               options_event = Some \<lparr>opt_type = Some ''eligible'',
                                      opt_params = Some (JObject [(''grade'', JNumber 3)])\<rparr>,
               options_priority = Str ''2'',
               onSuccess = Some 1,
               onFailure = Some 2\<rparr>"

definition rule2 :: "(js, nat) rule" where
  "rule2 = \<lparr>rule_priority = Some (Number 2),
            rule_conditions = Some tree2,
            rule_event = Some \<lparr>type = ''eligible'', params = Some (JObject [(''grade'', JNumber 3)])\<rparr>,
            rule_engine = None,
            listeners = [(''success'', 1), (''failure'', 2)]\<rparr>"

lemma Rule_new_options2: "Rule_new Condition_class (FromOptions (Some options2)) = Inr rule2"
  by (simp add: serialization on_def options2_def rule2_def)

theorem serialization_round_trip_witness:
  "Rule_new Condition_class (FromOptions (Some options2)) = Inr rule2
   \<and> rule_priority rule2 = Some (Number 2) \<and> (0::int) < 2 \<and> (2::int) < 10 ^ 21
   \<and> rule_event rule2 = Some \<lparr>type = ''eligible'', params = Some (JObject [(''grade'', JNumber 3)])\<rparr>
   \<and> js_truthy (JObject [(''grade'', JNumber 3)]) \<and> json_data (JObject [(''grade'', JNumber 3)])
   \<and> rule_conditions rule2 = Some tree2
   \<and> isBooleanOperator tree2 \<and> integer_priorities tree2 \<and> json_leaves tree2
   \<and> (\<exists>this'. Rule_new Condition_class (FromString (as_string (toJSON Condition_class True rule2)))
                  = Inr this'
          \<and> rule_conditions this' = rule_conditions rule2
          \<and> rule_event this' = rule_event rule2
          \<and> rule_priority this' = rule_priority rule2)"
proof -
  have prio: "rule_priority rule2 = Some (Number 2)" "(0::int) < 2" "(2::int) < 10 ^ 21"
    by (simp_all add: rule2_def)
  have payload: "js_truthy (JObject [(''grade'', JNumber 3)])" "json_data (JObject [(''grade'', JNumber 3)])"
    by simp_all
  have event: "rule_event rule2 = Some \<lparr>type = ''eligible'', params = Some (JObject [(''grade'', JNumber 3)])\<rparr>"
    "\<forall>ps. params \<lparr>type = ''eligible'', params = Some (JObject [(''grade'', JNumber 3)])\<rparr> = Some ps
          \<longrightarrow> js_truthy ps \<and> json_data ps"
    by (simp_all add: rule2_def)
  have shape: "isBooleanOperator tree2" "integer_priorities tree2" "json_leaves tree2"
    by (simp_all add: tree2_def)
  have conditions: "rule_conditions rule2 = Some tree2"
    by (simp add: rule2_def)
  have tree: "\<forall>c. rule_conditions rule2 = Some c \<longrightarrow>
                 isBooleanOperator c \<and> integer_priorities c \<and> json_leaves c"
    using conditions shape by simp
  note T = serialization_round_trip [OF prio event tree]
  from Rule_new_options2 prio payload event(1) conditions shape T show ?thesis by simp
qed

end
